theory Spec2Isabelle
  imports Main "HOL-Library.Sublist"
begin

section \<open>Values shared by the client and the token stores\<close>

text \<open>
  Instants are milliseconds since the epoch (the time value of a JavaScript \<open>Date\<close>).
  \<open>AuthToken\<close> is constructed in \<open>createInstallationToken\<close> from a token string and an
  expiry date; the client reads its \<open>token\<close> field.
\<close>

record AuthToken =
  token :: string
  expiresAt :: int

text \<open>
  JSON-like values for request bodies, query parameters and url parameters.
  \<open>Undefined\<close> is an omitted optional argument.
\<close>

datatype json = Undefined | Num int | Str string | Obj "(string \<times> json) list"

text \<open>
  The decimal numeral of a natural number, most significant digit first, as JavaScript
  prints an array length or an integral \<open>number\<close>.
\<close>

definition digit_char :: "nat \<Rightarrow> char" where
  "digit_char d = ''0123456789'' ! d"

fun decimal :: "nat \<Rightarrow> string" where
  "decimal n = (if 10 \<le> n then decimal (n div 10) @ [digit_char (n mod 10)] else [digit_char n])"

declare decimal.simps [simp del]

text \<open>Reading a decimal numeral back, to say what \<open>decimal\<close> prints.\<close>

definition digit_value :: "char \<Rightarrow> nat" where
  "digit_value c = of_char c - 48"

definition decimal_value :: "string \<Rightarrow> nat" where
  "decimal_value s = foldl (\<lambda>a c. 10 * a + digit_value c) 0 s"

section \<open>GraphQL responses and their errors (github-app-client.ts, graphql)\<close>

record GraphQLError =
  message :: string
  type :: string

text \<open>
  \<open>GraphQlQueryResponse<T>\<close>: the field \<open>data\<close> of the source is \<open>gql_data\<close> here (the
  name \<open>data\<close> is the field of \<open>AxiosResponse\<close>); \<open>errors\<close> is optional.
\<close>

record 'd GraphQlQueryResponse =
  gql_data :: 'd
  errors :: "GraphQLError list option"

record 'a AxiosResponse =
  data :: 'a
  status :: nat
  headers :: "string \<rightharpoonup> string"

text \<open>
  The rejections of the client. \<open>RateLimitingError\<close> carries the response,
  \<open>GithubClientGraphQLError\<close> its message and the error list; \<open>Rejection\<close> is any other
  failure (the network, an interceptor, the token stores), with a payload the client never
  inspects.
\<close>

datatype ('e, 'd) GithubClientError =
    RateLimitingError "'d GraphQlQueryResponse AxiosResponse"
  | GithubClientGraphQLError string "GraphQLError list"
  | Rejection 'e

text \<open>
  Lines 135 to 145 of \<open>graphql\<close>: what becomes of a response that the POST returned.
  \<open>graphqlErrors?.length\<close> is falsy for a missing and for an empty array;
  \<open>find\<close> returns the first matching element, an object, hence truthy.
\<close>

definition graphQlErrorMessage :: "GraphQLError list \<Rightarrow> string" where
  "graphQlErrorMessage graphqlErrors =
     message (graphqlErrors ! 0) @
     (if length graphqlErrors > 1
      then '' and '' @ decimal (length graphqlErrors - 1) @ '' more errors''
      else '''')"

definition graphql_settle ::
  "'d GraphQlQueryResponse AxiosResponse \<Rightarrow>
   ('e, 'd) GithubClientError + 'd GraphQlQueryResponse AxiosResponse" where
  "graphql_settle response =
     (case errors (data response) of
        None \<Rightarrow> Inr response
      | Some graphqlErrors \<Rightarrow>
          if length graphqlErrors \<noteq> 0 then
            (if find (\<lambda>err. type err = ''RATE_LIMITED'') graphqlErrors \<noteq> None
             then Inl (RateLimitingError response)
             else Inl (GithubClientGraphQLError (graphQlErrorMessage graphqlErrors) graphqlErrors))
          else Inr response)"

section \<open>The client: requests, promises and the missing collaborators\<close>

datatype http_verb = GET | POST | PATCH

record Headers =
  Accept :: string
  Authorization :: string

text \<open>
  A request as the axios instance receives it: verb, url template, body and the config
  object (headers, \<open>params\<close>, \<open>urlParams\<close>). An argument the call leaves out is
  \<open>Undefined\<close>.
\<close>

record AxiosRequest =
  verb :: http_verb
  url :: string
  body :: json
  request_headers :: Headers
  params :: json
  urlParams :: json

text \<open>\<open>InstallationId\<close>: the two fields the client reads.\<close>

record InstallationId =
  githubBaseUrl :: string
  installationId :: int

text \<open>
  \<open>Octokit.AppsCreateInstallationTokenResponse\<close>: the fields \<open>token\<close> and \<open>expires_at\<close>
  (\<open>token\<close> is \<open>response_token\<close> here, the name being taken by \<open>AuthToken\<close>).
\<close>

record AppsCreateInstallationTokenResponse =
  response_token :: string
  expires_at :: string

text \<open>
  The state one logical flow of the client runs against: the two token stores (their
  classes are not part of the client; their states stay abstract) and the requests handed
  to axios so far, oldest first.
\<close>

record ('h, 'c) world =
  appTokenHolder :: 'h
  installationTokenCache :: 'c
  sent :: "AxiosRequest list"

text \<open>
  An \<open>async\<close> function is a state transformer that settles with \<open>Inr\<close> (resolved) or
  \<open>Inl\<close> (rejected). \<open>await\<close> runs the continuation on a resolved value and passes a
  rejection on; \<open>catch\<close> is \<open>promise.catch(handler)\<close>.
\<close>

type_synonym ('x, 'a, 'w) promise = "'w \<Rightarrow> ('x + 'a) \<times> 'w"

definition resolve :: "'a \<Rightarrow> ('x, 'a, 'w) promise" where
  "resolve a = (\<lambda>w. (Inr a, w))"

definition reject :: "'x \<Rightarrow> ('x, 'a, 'w) promise" where
  "reject e = (\<lambda>w. (Inl e, w))"

definition await :: "('x, 'a, 'w) promise \<Rightarrow> ('a \<Rightarrow> ('x, 'b, 'w) promise) \<Rightarrow> ('x, 'b, 'w) promise" where
  "await p k = (\<lambda>w. case p w of (Inl e, w') \<Rightarrow> (Inl e, w') | (Inr a, w') \<Rightarrow> k a w')"

definition catch :: "('x, 'a, 'w) promise \<Rightarrow> ('x \<Rightarrow> ('x, 'a, 'w) promise) \<Rightarrow> ('x, 'a, 'w) promise" where
  "catch p handler = (\<lambda>w. case p w of (Inl e, w') \<Rightarrow> handler e w' | (Inr a, w') \<Rightarrow> (Inr a, w'))"

text \<open>
  What the client imports and this development does not have: the two token stores, the
  axios instance with its interceptors (one oracle per response type the client asks
  for; each sees the requests sent before), the \<open>Date\<close> constructor on a string, the four
  query texts and \<open>isChangedFilesError\<close>. They are parameters of every client function.
\<close>

record ('e, 'd, 'h, 'c) collaborators =
  getAppToken :: "InstallationId \<Rightarrow> 'h \<Rightarrow> (('e, 'd) GithubClientError + AuthToken) \<times> 'h"
  getInstallationToken ::
    "int \<Rightarrow> (('e, 'd) GithubClientError, AuthToken, ('h, 'c) world) promise
         \<Rightarrow> (('e, 'd) GithubClientError, AuthToken, ('h, 'c) world) promise"
  post_access_tokens ::
    "AxiosRequest list \<Rightarrow> AxiosRequest
       \<Rightarrow> ('e, 'd) GithubClientError + AppsCreateInstallationTokenResponse AxiosResponse"
  post_graphql ::
    "AxiosRequest list \<Rightarrow> AxiosRequest
       \<Rightarrow> ('e, 'd) GithubClientError + 'd GraphQlQueryResponse AxiosResponse"
  rest_call ::
    "AxiosRequest list \<Rightarrow> AxiosRequest \<Rightarrow> ('e, 'd) GithubClientError + 'd AxiosResponse"
  Date :: "string \<Rightarrow> int"
  getBranchesQueryWithChangedFiles :: string
  getBranchesQueryWithoutChangedFiles :: string
  getCommitsQueryWithChangedFiles :: string
  getCommitsQueryWithoutChangedFiles :: string
  isChangedFilesError :: "('e, 'd) GithubClientError \<Rightarrow> bool"

text \<open>Handing a request to axios: the oracle answers, the request is recorded.\<close>

definition axios_request ::
  "(AxiosRequest list \<Rightarrow> AxiosRequest \<Rightarrow> 'x + 'a) \<Rightarrow> AxiosRequest \<Rightarrow> ('x, 'a, ('h, 'c) world) promise" where
  "axios_request oracle req = (\<lambda>w. (oracle (sent w) req, w\<lparr>sent := sent w @ [req]\<rparr>))"

text \<open>\<open>appAuthenticationHeaders\<close> (lines 69 to 77); a throwing \<open>getAppToken\<close> is \<open>Inl\<close>.\<close>

definition appAuthenticationHeaders ::
  "('e, 'd, 'h, 'c) collaborators \<Rightarrow> InstallationId
     \<Rightarrow> (('e, 'd) GithubClientError, Headers, ('h, 'c) world) promise" where
  "appAuthenticationHeaders C githubInstallationId =
     (\<lambda>w. case getAppToken C githubInstallationId (appTokenHolder w) of
        (Inl e, h) \<Rightarrow> (Inl e, w\<lparr>appTokenHolder := h\<rparr>)
      | (Inr appToken, h) \<Rightarrow>
          (Inr \<lparr>Accept = ''application/vnd.github.v3+json'',
                Authorization = ''Bearer '' @ token appToken\<rparr>,
           w\<lparr>appTokenHolder := h\<rparr>))"

text \<open>
  \<open>createInstallationToken\<close> (lines 98 to 107). The config object, and with it
  \<open>appAuthenticationHeaders()\<close>, is evaluated before \<open>axios.post\<close> is called.
\<close>

definition createInstallationToken ::
  "('e, 'd, 'h, 'c) collaborators \<Rightarrow> InstallationId \<Rightarrow> int
     \<Rightarrow> (('e, 'd) GithubClientError, AuthToken, ('h, 'c) world) promise" where
  "createInstallationToken C this_id githubInstallationId =
     await (appAuthenticationHeaders C this_id) (\<lambda>appHeaders.
     await (axios_request (post_access_tokens C)
              \<lparr>verb = POST,
               url = ''/app/installations/{githubInstallationId}/access_tokens'',
               body = Obj [],
               request_headers = appHeaders,
               params = Undefined,
               urlParams = Obj [(''githubInstallationId'', Num githubInstallationId)]\<rparr>)
       (\<lambda>response.
          resolve \<lparr>token = response_token (data response),
                   expiresAt = Date C (expires_at (data response))\<rparr>))"

text \<open>\<open>installationAuthenticationHeaders\<close> (lines 82 to 92).\<close>

definition installationAuthenticationHeaders ::
  "('e, 'd, 'h, 'c) collaborators \<Rightarrow> InstallationId
     \<Rightarrow> (('e, 'd) GithubClientError, Headers, ('h, 'c) world) promise" where
  "installationAuthenticationHeaders C this_id =
     await (getInstallationToken C (installationId this_id)
              (createInstallationToken C this_id (installationId this_id)))
       (\<lambda>installationToken.
          resolve \<lparr>Accept = ''application/vnd.github.v3+json'',
                   Authorization = ''Bearer '' @ token installationToken\<rparr>)"

text \<open>
  \<open>get\<close>, \<open>patch\<close> and \<open>graphql\<close> (lines 109 to 146), \<open>getInstallation\<close> (lines 239
  to 246). A parameter declared with the default \<open>= {}\<close> takes the empty object when the
  caller passes \<open>undefined\<close>.
\<close>

fun default_object :: "json \<Rightarrow> json" where
  "default_object Undefined = Obj []"
| "default_object j = j"

definition get ::
  "('e, 'd, 'h, 'c) collaborators \<Rightarrow> InstallationId \<Rightarrow> string \<Rightarrow> json \<Rightarrow> json
     \<Rightarrow> (('e, 'd) GithubClientError, 'd AxiosResponse, ('h, 'c) world) promise" where
  "get C this_id url_template params_arg urlParams_arg =
     await (installationAuthenticationHeaders C this_id) (\<lambda>installationHeaders.
       axios_request (rest_call C)
         \<lparr>verb = GET, url = url_template, body = Undefined,
          request_headers = installationHeaders,
          params = default_object params_arg, urlParams = default_object urlParams_arg\<rparr>)"

definition patch ::
  "('e, 'd, 'h, 'c) collaborators \<Rightarrow> InstallationId \<Rightarrow> string \<Rightarrow> json \<Rightarrow> json \<Rightarrow> json
     \<Rightarrow> (('e, 'd) GithubClientError, 'd AxiosResponse, ('h, 'c) world) promise" where
  "patch C this_id url_template body_arg params_arg urlParams_arg =
     await (installationAuthenticationHeaders C this_id) (\<lambda>installationHeaders.
       axios_request (rest_call C)
         \<lparr>verb = PATCH, url = url_template, body = default_object body_arg,
          request_headers = installationHeaders,
          params = default_object params_arg, urlParams = default_object urlParams_arg\<rparr>)"

definition graphql ::
  "('e, 'd, 'h, 'c) collaborators \<Rightarrow> InstallationId \<Rightarrow> string \<Rightarrow> json
     \<Rightarrow> (('e, 'd) GithubClientError, 'd GraphQlQueryResponse AxiosResponse, ('h, 'c) world) promise" where
  "graphql C this_id query variables =
     await (installationAuthenticationHeaders C this_id) (\<lambda>installationHeaders.
     await (axios_request (post_graphql C)
              \<lparr>verb = POST, url = ''/graphql'',
               body = Obj [(''query'', Str query), (''variables'', variables)],
               request_headers = installationHeaders,
               params = Undefined, urlParams = Undefined\<rparr>)
       (\<lambda>response w. (graphql_settle response, w)))"

definition getInstallation ::
  "('e, 'd, 'h, 'c) collaborators \<Rightarrow> InstallationId \<Rightarrow> int
     \<Rightarrow> (('e, 'd) GithubClientError, 'd AxiosResponse, ('h, 'c) world) promise" where
  "getInstallation C this_id installationId_arg =
     await (appAuthenticationHeaders C this_id) (\<lambda>appHeaders.
       axios_request (rest_call C)
         \<lparr>verb = GET, url = ''/app/installations/{installationId}'', body = Undefined,
          request_headers = appHeaders,
          params = Undefined,
          urlParams = Obj [(''installationId'', Num installationId_arg)]\<rparr>)"

section \<open>Pagination of the repository list (getRepositoriesPage)\<close>

text \<open>
  \<open>String.prototype.includes\<close> (here \<open>js_includes\<close>): does \<open>sub\<close> occur in \<open>s\<close> as a run of consecutive
  characters, at some position.
\<close>

fun js_includes :: "string \<Rightarrow> string \<Rightarrow> bool" where
  "js_includes [] sub = (sub = [])"
| "js_includes (c # cs) sub = (prefix sub (c # cs) \<or> js_includes cs sub)"

record 'a PaginatedAxiosResponse = "'a AxiosResponse" +
  hasNextPage :: bool

definition rel_next :: string where
  \<open>rel_next = ''rel="next"''\<close>

text \<open>
  Lines 232 to 236: \<open>!!response?.headers.link?.includes("rel=\"next\"")\<close> is false when
  there is no \<open>link\<close> header, and the result is the response with the flag added.
\<close>

definition paginated :: "'a AxiosResponse \<Rightarrow> 'a PaginatedAxiosResponse" where
  "paginated response =
     \<lparr>data = data response, status = status response, headers = headers response,
      hasNextPage = (case headers response ''link'' of
                       None \<Rightarrow> False
                     | Some link \<Rightarrow> js_includes link rel_next)\<rparr>"

text \<open>\<open>getRepositoriesPage\<close> (lines 227 to 237); \<open>page\<close> is 1 when the caller leaves it out.\<close>

definition getRepositoriesPage ::
  "('e, 'd, 'h, 'c) collaborators \<Rightarrow> InstallationId \<Rightarrow> int option
     \<Rightarrow> (('e, 'd) GithubClientError, 'd PaginatedAxiosResponse, ('h, 'c) world) promise" where
  "getRepositoriesPage C this_id page_arg =
     (let page = (case page_arg of None \<Rightarrow> 1 | Some n \<Rightarrow> n)
      in await (get C this_id ''/installation/repositories?per_page={perPage}&page={page}''
                  (Obj []) (Obj [(''perPage'', Num 100), (''page'', Num page)]))
           (\<lambda>response. resolve (paginated response)))"

section \<open>Branch and commit pages with the changedFiles fallback\<close>

text \<open>
  \<open>getBranchesPage\<close> (lines 277 to 300) and \<open>getCommitsPage\<close> (lines 305 to 327). The
  optional arguments (\<open>cursor\<close>, and \<open>perPage\<close> of \<open>getCommitsPage\<close>) are \<open>json\<close>
  values, \<open>Undefined\<close> when left out. The logger's warning is not modelled.
\<close>

definition getBranchesPage ::
  "('e, 'd, 'h, 'c) collaborators \<Rightarrow> InstallationId \<Rightarrow> string \<Rightarrow> string \<Rightarrow> int \<Rightarrow> json
     \<Rightarrow> (('e, 'd) GithubClientError, 'd, ('h, 'c) world) promise" where
  "getBranchesPage C this_id owner repoName perPage cursor =
     await
       (catch
          (graphql C this_id (getBranchesQueryWithChangedFiles C)
             (Obj [(''owner'', Str owner), (''repo'', Str repoName),
                   (''per_page'', Num perPage), (''cursor'', cursor)]))
          (\<lambda>err.
             if \<not> isChangedFilesError C err then reject err
             else graphql C this_id (getBranchesQueryWithoutChangedFiles C)
                    (Obj [(''owner'', Str owner), (''repo'', Str repoName),
                          (''per_page'', Num perPage), (''cursor'', cursor)])))
       (\<lambda>response. resolve (gql_data (data response)))"

definition getCommitsPage ::
  "('e, 'd, 'h, 'c) collaborators \<Rightarrow> InstallationId \<Rightarrow> string \<Rightarrow> string \<Rightarrow> json \<Rightarrow> json
     \<Rightarrow> (('e, 'd) GithubClientError, 'd, ('h, 'c) world) promise" where
  "getCommitsPage C this_id owner repoName perPage cursor =
     await
       (catch
          (graphql C this_id (getCommitsQueryWithChangedFiles C)
             (Obj [(''owner'', Str owner), (''repo'', Str repoName),
                   (''per_page'', perPage), (''cursor'', cursor)]))
          (\<lambda>err.
             if \<not> isChangedFilesError C err then reject err
             else graphql C this_id (getCommitsQueryWithoutChangedFiles C)
                    (Obj [(''owner'', Str owner), (''repo'', Str repoName),
                          (''per_page'', perPage), (''cursor'', cursor)])))
       (\<lambda>response. resolve (gql_data (data response)))"

section \<open>Shorthands for stating what the client sends\<close>

text \<open>
  The header object that \<open>appAuthenticationHeaders\<close> and
  \<open>installationAuthenticationHeaders\<close> build from a token, and the token-exchange request
  of \<open>createInstallationToken\<close>.
\<close>

definition bearer :: "AuthToken \<Rightarrow> Headers" where
  "bearer t = \<lparr>Accept = ''application/vnd.github.v3+json'', Authorization = ''Bearer '' @ token t\<rparr>"

definition access_tokens_request :: "AuthToken \<Rightarrow> int \<Rightarrow> AxiosRequest" where
  "access_tokens_request appToken n =
     \<lparr>verb = POST, url = ''/app/installations/{githubInstallationId}/access_tokens'',
      body = Obj [], request_headers = bearer appToken,
      params = Undefined, urlParams = Obj [(''githubInstallationId'', Num n)]\<rparr>"

definition graphql_request :: "AuthToken \<Rightarrow> string \<Rightarrow> json \<Rightarrow> AxiosRequest" where
  "graphql_request t q v =
     \<lparr>verb = POST, url = ''/graphql'',
      body = Obj [(''query'', Str q), (''variables'', v)],
      request_headers = bearer t, params = Undefined, urlParams = Undefined\<rparr>"

text \<open>The variables object that \<open>getBranchesPage\<close> and \<open>getCommitsPage\<close> pass with both queries.\<close>

definition page_variables :: "string \<Rightarrow> string \<Rightarrow> json \<Rightarrow> json \<Rightarrow> json" where
  "page_variables owner repoName perPage cursor =
     Obj [(''owner'', Str owner), (''repo'', Str repoName), (''per_page'', perPage), (''cursor'', cursor)]"

section \<open>A concrete set of collaborators\<close>

text \<open>
  Stand-ins for closed instances: a holder that always hands out the same app token and
  counts its calls, a cache that never caches, a token exchange that always succeeds, a
  GraphQL endpoint that answers the query \<open>with\<close> by a changedFiles error and any other
  query by a page, a REST endpoint whose answer announces a next page, and
  \<open>isChangedFilesError\<close> as a search for \<open>changedFiles\<close> in the messages of a GraphQL
  error. \<open>demo_not_found\<close> differs in the GraphQL endpoint, which answers every query by
  a \<open>NOT_FOUND\<close> error.
\<close>

definition changedFilesMessage :: string where
  "changedFilesMessage = ''The changedFiles count for this commit is unavailable.''"

definition demo :: "(unit, json, nat, unit) collaborators" where
  \<open>demo =
     \<lparr>getAppToken = (\<lambda>this_id h. (Inr \<lparr>token = ''app-jwt'', expiresAt = 600000\<rparr>, Suc h)),
      getInstallationToken = (\<lambda>k fetchFn. fetchFn),
      post_access_tokens = (\<lambda>log req.
         Inr \<lparr>data = \<lparr>response_token = ''ghs_1'', expires_at = ''2021-11-25T00:00:00Z''\<rparr>,
              status = 201, headers = Map.empty\<rparr>),
      post_graphql = (\<lambda>log req.
         if (case body req of Obj members \<Rightarrow> map_of members ''query'' = Some (Str ''with'') | _ \<Rightarrow> False)
         then Inr \<lparr>data = \<lparr>gql_data = Undefined,
                            errors = Some [\<lparr>message = changedFilesMessage, type = ''SERVICE_UNAVAILABLE''\<rparr>]\<rparr>,
                   status = 200, headers = Map.empty\<rparr>
         else Inr \<lparr>data = \<lparr>gql_data = Str ''page'', errors = None\<rparr>,
                   status = 200, headers = Map.empty\<rparr>),
      rest_call = (\<lambda>log req.
         Inr \<lparr>data = Obj [(''total_count'', Num 1)], status = 200,
              headers = [''link'' \<mapsto> ''<https://api.github.com/installation/repositories?page=2>; rel="next"'']\<rparr>),
      Date = (\<lambda>s. 1637798400000),
      getBranchesQueryWithChangedFiles = ''with'',
      getBranchesQueryWithoutChangedFiles = ''without'',
      getCommitsQueryWithChangedFiles = ''with'',
      getCommitsQueryWithoutChangedFiles = ''without'',
      isChangedFilesError = (\<lambda>err. case err of
          GithubClientGraphQLError m es \<Rightarrow> list_ex (\<lambda>e. js_includes (message e) ''changedFiles'') es
        | _ \<Rightarrow> False)\<rparr>\<close>

definition demo_not_found :: "(unit, json, nat, unit) collaborators" where
  "demo_not_found =
     demo\<lparr>post_graphql := (\<lambda>log req.
        Inr \<lparr>data = \<lparr>gql_data = Undefined,
                       errors = Some [\<lparr>message = ''Could not resolve to a Repository'', type = ''NOT_FOUND''\<rparr>]\<rparr>,
             status = 200, headers = Map.empty\<rparr>)\<rparr>"

text \<open>
  Two more GraphQL endpoints: one answers every query by a response with a \<open>NOT_FOUND\<close>
  and a \<open>RATE_LIMITED\<close> error, the other by a response with three errors, none of them
  a rate limit.
\<close>

definition rate_limited_response :: "json GraphQlQueryResponse AxiosResponse" where
  "rate_limited_response =
     \<lparr>data = \<lparr>gql_data = Undefined,
                   errors = Some [\<lparr>message = ''Could not resolve to a Repository'', type = ''NOT_FOUND''\<rparr>,
                                  \<lparr>message = ''API rate limit exceeded'', type = ''RATE_LIMITED''\<rparr>]\<rparr>,
      status = 200, headers = Map.empty\<rparr>"


definition demo_rate_limited :: "(unit, json, nat, unit) collaborators" where
  "demo_rate_limited = demo\<lparr>post_graphql := (\<lambda>log req. Inr rate_limited_response)\<rparr>"


text \<open>A cache that holds a valid token: it answers at once and sends nothing.\<close>

definition demo_cached :: "(unit, json, nat, unit) collaborators" where
  "demo_cached =
     demo\<lparr>getInstallationToken := (\<lambda>k fetchFn w. (Inr \<lparr>token = ''ghs_0'', expiresAt = 1637798400000\<rparr>, w))\<rparr>"

definition demo_id :: InstallationId where
  "demo_id = \<lparr>githubBaseUrl = ''https://api.github.com'', installationId = 17979017\<rparr>"

definition demo_world :: "(nat, unit) world" where
  "demo_world = \<lparr>appTokenHolder = 0, installationTokenCache = (), sent = []\<rparr>"

section \<open>Repository ids with a server prefix (transform-repository-id.ts)\<close>

text \<open>
  A repository id is an integral \<open>number\<close>, and \<open>"" + repositoryId\<close> is the platform's
  conversion of a number to a string. \<open>signed_decimal\<close> is the exact decimal numeral of an
  integer, with a minus sign when negative. The platform prints exactly that for a safe
  integer, one of magnitude at most \<open>Number.MAX_SAFE_INTEGER\<close> (2 to the 53 minus 1). Beyond,
  it does not: the digits are the shortest ones that round to the number, padded with
  zeros, and from 10 to the 21 on the exponent form is used (\<open>1e+21\<close>). What the platform
  prints beyond the safe integers is a parameter, \<open>beyond\<close>.
\<close>

definition signed_decimal :: "int \<Rightarrow> string" where
  "signed_decimal i = (if 0 \<le> i then decimal (nat i) else CHR ''-'' # decimal (nat (- i)))"

definition MAX_SAFE_INTEGER :: int where
  "MAX_SAFE_INTEGER = 9007199254740991"

definition number_to_string :: "(int \<Rightarrow> string) \<Rightarrow> int \<Rightarrow> string" where
  "number_to_string beyond i = (if \<bar>i\<bar> \<le> MAX_SAFE_INTEGER then signed_decimal i else beyond i)"

text \<open>
  Strings are byte strings (host and pathname of a parsed \<open>URL\<close> are ASCII: the parser
  writes other characters in punycode or percent-encoded). \<open>toLowerCase\<close> maps \<open>A\<close> to \<open>Z\<close> onto \<open>a\<close> to \<open>z\<close>;
  the regular expression \<open>/[\W_]/g\<close> matches every character that is not a letter or a
  digit, so the replacement keeps exactly the letters and digits; \<open>Buffer.from(s).toString('hex')\<close>
  writes each byte as two lower-case hexadecimal digits.
\<close>

definition lower_char :: "char \<Rightarrow> char" where
  "lower_char c =
     (if 65 \<le> (of_char c :: nat) \<and> (of_char c :: nat) \<le> 90 then char_of ((of_char c :: nat) + 32) else c)"

definition toLowerCase :: "string \<Rightarrow> string" where
  "toLowerCase s = map lower_char s"

definition is_alnum :: "char \<Rightarrow> bool" where
  "is_alnum c =
     (let n = (of_char c :: nat)
      in (48 \<le> n \<and> n \<le> 57) \<or> (65 \<le> n \<and> n \<le> 90) \<or> (97 \<le> n \<and> n \<le> 122))"

definition strip_special :: "string \<Rightarrow> string" where
  "strip_special s = filter is_alnum s"

definition hex_of_char :: "char \<Rightarrow> string" where
  "hex_of_char c =
     [''0123456789abcdef'' ! ((of_char c :: nat) div 16),
      ''0123456789abcdef'' ! ((of_char c :: nat) mod 16)]"

definition to_hex :: "string \<Rightarrow> string" where
  "to_hex s = concat (map hex_of_char s)"

text \<open>
  The two fields of a parsed \<open>URL\<close> that \<open>calculatePrefix\<close> reads. The \<open>URL\<close>
  constructor belongs to the platform: it is a parameter \<open>new_URL\<close>, \<open>None\<close> when it
  throws \<open>TypeError\<close> on a string that is not an absolute URL.
\<close>

record URL =
  host :: string
  pathname :: string

datatype js_error = TypeError

definition calculatePrefix :: "(string \<Rightarrow> URL option) \<Rightarrow> string \<Rightarrow> js_error + string" where
  "calculatePrefix new_URL url_string =
     (case new_URL url_string of
        None \<Rightarrow> Inl TypeError
      | Some parsedUrl \<Rightarrow>
          Inr (take 512 (to_hex (strip_special (toLowerCase (host parsedUrl @ pathname parsedUrl))))))"

text \<open>
  \<open>transformRepositoryId\<close> (lines 31 to 44). \<open>USE_REPO_ID_TRANSFORMER\<close> is the value the
  feature flag resolves to, \<open>GITHUB_CLOUD_BASEURL\<close> the imported constant. \<open>!gitHubBaseUrl\<close>
  holds for \<open>undefined\<close> (\<open>None\<close>) and for the empty string. The left operand of
  \<open>===\<close> is evaluated first, and the prefix is computed again for the result.
\<close>

definition transformRepositoryId ::
  "(string \<Rightarrow> URL option) \<Rightarrow> (int \<Rightarrow> string) \<Rightarrow> string \<Rightarrow> bool \<Rightarrow> int \<Rightarrow> string option
     \<Rightarrow> js_error + string" where
  "transformRepositoryId new_URL beyond GITHUB_CLOUD_BASEURL USE_REPO_ID_TRANSFORMER repositoryId gitHubBaseUrl =
     (if \<not> USE_REPO_ID_TRANSFORMER then Inr (number_to_string beyond repositoryId)
      else case gitHubBaseUrl of
        None \<Rightarrow> Inr (number_to_string beyond repositoryId)
      | Some base \<Rightarrow>
          if base = [] then Inr (number_to_string beyond repositoryId)
          else (case calculatePrefix new_URL base of
                  Inl e \<Rightarrow> Inl e
                | Inr left \<Rightarrow>
                   (case calculatePrefix new_URL GITHUB_CLOUD_BASEURL of
                      Inl e \<Rightarrow> Inl e
                    | Inr right \<Rightarrow>
                        if left = right then Inr (number_to_string beyond repositoryId)
                        else (case calculatePrefix new_URL base of
                                Inl e \<Rightarrow> Inl e
                              | Inr p \<Rightarrow> Inr (p @ ''-'' @ number_to_string beyond repositoryId)))))"

text \<open>
  What the platform is known to answer, laid over any constructor and any printing. The
  \<open>URL\<close> constructor refuses the empty string and \<open>ghe.example.com\<close> (no scheme); it
  lowers the case of the host, drops the default port of the scheme, keeps any other port
  in \<open>host\<close>, keeps the case of the path and gives \<open>/\<close> for an empty path. The number
  10 to the 21 is printed as \<open>1e+21\<close>. On every other argument the result is that of the
  function given, so that a statement for all \<open>new_URL\<close> and all \<open>beyond\<close> rests on
  these answers and on nothing else.
\<close>

definition known_URLs :: "(string \<Rightarrow> URL option) \<Rightarrow> string \<Rightarrow> URL option" where
  "known_URLs new_URL =
     new_URL
       ('''' := None,
        ''ghe.example.com'' := None,
        ''https://github.com'' := Some \<lparr>host = ''github.com'', pathname = ''/''\<rparr>,
        ''http://GitHub.com/'' := Some \<lparr>host = ''github.com'', pathname = ''/''\<rparr>,
        ''https://github.com:443'' := Some \<lparr>host = ''github.com'', pathname = ''/''\<rparr>,
        ''https://ghe.example.com/api'' := Some \<lparr>host = ''ghe.example.com'', pathname = ''/api''\<rparr>,
        ''https://GHE.Example.com:8443/API_v3/'' :=
           Some \<lparr>host = ''ghe.example.com:8443'', pathname = ''/API_v3/''\<rparr>)"

definition known_numbers :: "(int \<Rightarrow> string) \<Rightarrow> int \<Rightarrow> string" where
  "known_numbers beyond = beyond (1000000000000000000000 := ''1e+21'')"

section \<open>The app token holder\<close>

text \<open>
  Modelled from the spec: the class \<open>AppTokenHolder\<close> (app-token-holder.ts), of which the
  sources hold only the test and the calls. Section 4.1 of the specification: a cached
  token whose \<open>expiresAt\<close> is still in the future, with the safety margin, is returned
  unchanged; otherwise a new token is signed over the claims issued-at, expires-at (issued-at
  plus the validity horizon) and the app identifier, cached and returned. Section 9: a token
  counts as expired when \<open>now + margin >= expiresAt\<close>. Horizon and margin are configuration;
  the signing operation is a parameter, \<open>None\<close> when it fails.
\<close>

record jwt_claims =
  iat :: int
  exp :: int
  iss :: string

record AppTokenHolder =
  appId :: string
  privateKey :: string
  horizon :: int
  margin :: int
  currentToken :: "AuthToken option"

datatype holder_error = SigningFailure

text \<open>
  Modelled from the spec: the safety-margin expiry check, missing with the \<open>AuthToken\<close>
  class; section 9, "a pure comparison against \<open>now + margin >= expiresAt\<close>".
\<close>

definition isAboutToExpire :: "int \<Rightarrow> int \<Rightarrow> AuthToken \<Rightarrow> bool" where
  "isAboutToExpire safety now t = (now + safety \<ge> expiresAt t)"

text \<open>
  Modelled from the spec: the signing step of \<open>AppTokenHolder\<close>; section 4.1, "sign a new token
  (a claims set containing issued-at, expires-at and the app identifier), cache it, and return
  it"; section 7, a failing signature is surfaced to the caller, and nothing is cached then.
\<close>

definition signAppToken ::
  "(string \<Rightarrow> jwt_claims \<Rightarrow> string option) \<Rightarrow> int \<Rightarrow> AppTokenHolder
     \<Rightarrow> (holder_error + AuthToken) \<times> AppTokenHolder" where
  "signAppToken sign now h =
     (case sign (privateKey h) \<lparr>iat = now, exp = now + horizon h, iss = appId h\<rparr> of
        None \<Rightarrow> (Inl SigningFailure, h)
      | Some s \<Rightarrow>
          (Inr \<lparr>token = s, expiresAt = now + horizon h\<rparr>,
           h\<lparr>currentToken := Some \<lparr>token = s, expiresAt = now + horizon h\<rparr>\<rparr>))"

text \<open>
  Modelled from the spec: \<open>AppTokenHolder.getAppToken\<close>; section 4.1, "if the cached token's
  \<open>expiresAt\<close> is still in the future (with a safety margin) return it unchanged, otherwise
  sign a new token".
\<close>

definition holder_getAppToken ::
  "(string \<Rightarrow> jwt_claims \<Rightarrow> string option) \<Rightarrow> int \<Rightarrow> AppTokenHolder
     \<Rightarrow> (holder_error + AuthToken) \<times> AppTokenHolder" where
  "holder_getAppToken sign now h =
     (case currentToken h of
        None \<Rightarrow> signAppToken sign now h
      | Some t \<Rightarrow>
          if \<not> isAboutToExpire (margin h) now t then (Inr t, h)
          else signAppToken sign now h)"

text \<open>
  A stand-in for the signing operation in closed instances: it writes the key and the
  claims into the token, so that tokens signed at different instants differ.
\<close>

definition plain_sign :: "string \<Rightarrow> jwt_claims \<Rightarrow> string option" where
  "plain_sign key c =
     Some (key @ ''.'' @ iss c @ ''.'' @ signed_decimal (iat c) @ ''.'' @ signed_decimal (exp c))"

section \<open>The installation token cache\<close>

text \<open>
  Modelled from the spec: the class \<open>InstallationTokenCache\<close> (installation-token-cache.ts),
  of which the sources hold only the calls. Sections 3, 4.2, 5 and 9 of the specification:
  per installation id a cached token and an in-flight marker; a bounded number of entries
  with least-recently-used eviction; a valid entry (same safety margin) is returned at
  once; a miss with no fetch in flight invokes \<open>fetchFn\<close> and registers the pending
  operation in the same tick; a miss with a fetch in flight joins that operation; on
  completion the pending marker is cleared, a success replaces the entry and a failure
  stores nothing, and every waiter gets the outcome.

  Scheduling is cooperative and single-threaded, so a run is a sequence of atomic events:
  a caller's call (at an instant), and the completion of the pending fetch of a key, with a
  token or with a failure. \<open>entries\<close> lists the cached tokens, most recently accessed
  first; \<open>pending\<close> maps a key with a fetch in flight to its waiting callers, in order of
  arrival. Two fields record what a run shows from outside: \<open>fetchCalls\<close>, the keys
  \<open>fetchFn\<close> was invoked for, and \<open>outcomes\<close>, which caller was settled with what.
\<close>

record 'x InstallationTokenCache =
  capacity :: nat
  safetyMargin :: int
  entries :: "(int \<times> AuthToken) list"
  pending :: "int \<rightharpoonup> nat list"
  fetchCalls :: "int list"
  outcomes :: "(nat \<times> ('x + AuthToken)) list"

datatype 'x event =
    Call nat int int
  | Resolved int AuthToken
  | Rejected int 'x

text \<open>Modelled from the spec: the constructor of \<open>InstallationTokenCache\<close>, an empty cache.\<close>

definition new_cache :: "nat \<Rightarrow> int \<Rightarrow> 'x InstallationTokenCache" where
  "new_cache maxEntries safety =
     \<lparr>capacity = maxEntries, safetyMargin = safety, entries = [], pending = Map.empty,
      fetchCalls = [], outcomes = []\<rparr>"

text \<open>
  Modelled from the spec: the least-recently-used policy of \<open>InstallationTokenCache\<close>; section
  4.2, "when full, inserting a new key evicts the oldest-accessed entry first". An access moves
  the entry to the front; an insertion beyond the capacity drops from the back.
\<close>

definition without :: "int \<Rightarrow> (int \<times> AuthToken) list \<Rightarrow> (int \<times> AuthToken) list" where
  "without k es = filter (\<lambda>entry. fst entry \<noteq> k) es"

definition touch :: "int \<Rightarrow> AuthToken \<Rightarrow> (int \<times> AuthToken) list \<Rightarrow> (int \<times> AuthToken) list" where
  "touch k t es = (k, t) # without k es"

definition store :: "nat \<Rightarrow> int \<Rightarrow> AuthToken \<Rightarrow> (int \<times> AuthToken) list \<Rightarrow> (int \<times> AuthToken) list" where
  "store maxEntries k t es = take maxEntries ((k, t) # without k es)"

text \<open>
  Modelled from the spec: the lookup of \<open>InstallationTokenCache\<close>; section 4.2, "a valid
  cached token (not expired, with the same safety margin)".
\<close>

definition valid_entry :: "'x InstallationTokenCache \<Rightarrow> int \<Rightarrow> int \<Rightarrow> AuthToken option" where
  "valid_entry c k now =
     (case map_of (entries c) k of
        None \<Rightarrow> None
      | Some t \<Rightarrow> if isAboutToExpire (safetyMargin c) now t then None else Some t)"

text \<open>
  Modelled from the spec: \<open>InstallationTokenCache.getInstallationToken\<close> and the completion of
  its pending fetch; section 4.2 (the three cases of the lookup, and error propagation) and
  section 5 (the pending operation is registered in the tick that detects the miss).
\<close>

fun step :: "'x InstallationTokenCache \<Rightarrow> 'x event \<Rightarrow> 'x InstallationTokenCache" where
  "step c (Call caller k now) =
     (case valid_entry c k now of
        Some t \<Rightarrow> c\<lparr>entries := touch k t (entries c), outcomes := outcomes c @ [(caller, Inr t)]\<rparr>
      | None \<Rightarrow>
          (case pending c k of
             Some waiters \<Rightarrow> c\<lparr>pending := (pending c)(k \<mapsto> waiters @ [caller])\<rparr>
           | None \<Rightarrow> c\<lparr>pending := (pending c)(k \<mapsto> [caller]), fetchCalls := fetchCalls c @ [k]\<rparr>))"
| "step c (Resolved k t) =
     (case pending c k of
        None \<Rightarrow> c
      | Some waiters \<Rightarrow>
          c\<lparr>entries := store (capacity c) k t (entries c),
            pending := (pending c)(k := None),
            outcomes := outcomes c @ map (\<lambda>caller. (caller, Inr t)) waiters\<rparr>)"
| "step c (Rejected k e) =
     (case pending c k of
        None \<Rightarrow> c
      | Some waiters \<Rightarrow>
          c\<lparr>pending := (pending c)(k := None),
            outcomes := outcomes c @ map (\<lambda>caller. (caller, Inl e)) waiters\<rparr>)"

fun run :: "'x InstallationTokenCache \<Rightarrow> 'x event list \<Rightarrow> 'x InstallationTokenCache" where
  "run c [] = c"
| "run c (ev # evs) = run (step c ev) evs"

text \<open>The callers that call for key \<open>k\<close> in a run, in order.\<close>

fun callers :: "int \<Rightarrow> 'x event list \<Rightarrow> nat list" where
  "callers k [] = []"
| "callers k (Call caller k' now # evs) = (if k' = k then caller # callers k evs else callers k evs)"
| "callers k (ev # evs) = callers k evs"

text \<open>
  An event that may happen while callers gather on a cold key \<open>k\<close>: a call for \<open>k\<close> at an
  instant at which \<open>k\<close> has no valid entry, or any event of another key.
\<close>

fun gathers :: "'x InstallationTokenCache \<Rightarrow> int \<Rightarrow> 'x event \<Rightarrow> bool" where
  "gathers c k (Call caller k' now) = (if k' = k then valid_entry c k now = None else True)"
| "gathers c k (Resolved k' t) = (k' \<noteq> k)"
| "gathers c k (Rejected k' e) = (k' \<noteq> k)"

text \<open>
  The keys a run accesses, most recent first and without repetition: an access is a call
  that is served from the cache, or the completion that stores a fetched token.
\<close>

fun accessed :: "'x InstallationTokenCache \<Rightarrow> 'x event \<Rightarrow> int option" where
  "accessed c (Call caller k now) = (case valid_entry c k now of Some t \<Rightarrow> Some k | None \<Rightarrow> None)"
| "accessed c (Resolved k t) = (case pending c k of Some waiters \<Rightarrow> Some k | None \<Rightarrow> None)"
| "accessed c (Rejected k e) = None"

fun recency :: "'x InstallationTokenCache \<Rightarrow> 'x event list \<Rightarrow> int list \<Rightarrow> int list" where
  "recency c [] r = r"
| "recency c (ev # evs) r =
     recency (step c ev) evs (case accessed c ev of None \<Rightarrow> r | Some k \<Rightarrow> k # removeAll k r)"

section \<open>Concrete holders, caches and runs\<close>

text \<open>
  A holder with a horizon of ten minutes and a margin of one minute, before and after its
  first signature at instant 0; a cache for two entries with the same margin; three tokens
  valid for an hour; a run in which two callers ask for installation 42 while a third asks
  for installation 99; and a run that fills the cache with installations 1 and 2, reads 1
  again and then misses on installation 3.
\<close>

definition demo_holder :: AppTokenHolder where
  "demo_holder = \<lparr>appId = ''42'', privateKey = ''key'', horizon = 600000, margin = 60000,
                   currentToken = None\<rparr>"

definition demo_holder_signed :: AppTokenHolder where
  "demo_holder_signed =
     demo_holder\<lparr>currentToken := Some \<lparr>token = ''key.42.0.600000'', expiresAt = 600000\<rparr>\<rparr>"

definition token_abc :: AuthToken where
  "token_abc = \<lparr>token = ''abc'', expiresAt = 3600000\<rparr>"

definition token_def :: AuthToken where
  "token_def = \<lparr>token = ''def'', expiresAt = 3600000\<rparr>"

definition token_ghi :: AuthToken where
  "token_ghi = \<lparr>token = ''ghi'', expiresAt = 3600000\<rparr>"

definition cold_cache :: "string InstallationTokenCache" where
  "cold_cache = new_cache 2 60000"

definition two_calls :: "string event list" where
  "two_calls = [Call 1 42 0, Call 7 99 0, Call 2 42 0]"

definition full_cache_run :: "string event list" where
  "full_cache_run =
     [Call 1 1 0, Resolved 1 token_abc, Call 2 2 0, Resolved 2 token_def, Call 3 1 10, Call 4 3 20]"

section \<open>Authentication of the requests\<close>

lemmas client_defs =
  getRepositoriesPage_def get_def patch_def graphql_def getInstallation_def
  installationAuthenticationHeaders_def createInstallationToken_def
  appAuthenticationHeaders_def axios_request_def await_def catch_def resolve_def reject_def

lemma installationAuthenticationHeaders_from_cache:
  "installationAuthenticationHeaders C i w =
     (case getInstallationToken C (installationId i) (createInstallationToken C i (installationId i)) w of
        (Inl e, w') \<Rightarrow> (Inl e, w')
      | (Inr t, w') \<Rightarrow> (Inr (bearer t), w'))"
  by (simp add: installationAuthenticationHeaders_def await_def resolve_def bearer_def
           split: prod.splits sum.splits)

lemma appAuthenticationHeaders_Inr:
  "getAppToken C i (appTokenHolder w) = (Inr appToken, h) \<Longrightarrow>
   appAuthenticationHeaders C i w = (Inr (bearer appToken), w\<lparr>appTokenHolder := h\<rparr>)"
  by (simp add: appAuthenticationHeaders_def bearer_def)

lemma appAuthenticationHeaders_Inl:
  "getAppToken C i (appTokenHolder w) = (Inl e, h) \<Longrightarrow>
   appAuthenticationHeaders C i w = (Inl e, w\<lparr>appTokenHolder := h\<rparr>)"
  by (simp add: appAuthenticationHeaders_def)

lemma createInstallationToken_exchange:
  assumes "getAppToken C i (appTokenHolder w) = (Inr appToken, h)"
  shows "createInstallationToken C i n w =
          (case post_access_tokens C (sent w) (access_tokens_request appToken n) of
             Inl e \<Rightarrow> Inl e
           | Inr response \<Rightarrow> Inr \<lparr>token = response_token (data response),
                                   expiresAt = Date C (expires_at (data response))\<rparr>,
           w\<lparr>appTokenHolder := h, sent := sent w @ [access_tokens_request appToken n]\<rparr>)"
  using appAuthenticationHeaders_Inr [OF assms]
  by (simp add: createInstallationToken_def await_def axios_request_def
        resolve_def access_tokens_request_def split: sum.splits)

lemma getInstallation_app_token:
  assumes "getAppToken C i (appTokenHolder w) = (Inr appToken, h)"
  shows "getInstallation C i n w =
          (rest_call C (sent w)
             \<lparr>verb = GET, url = ''/app/installations/{installationId}'', body = Undefined,
              request_headers = bearer appToken,
              params = Undefined, urlParams = Obj [(''installationId'', Num n)]\<rparr>,
           w\<lparr>appTokenHolder := h,
             sent := sent w @
               [\<lparr>verb = GET, url = ''/app/installations/{installationId}'', body = Undefined,
                 request_headers = bearer appToken,
                 params = Undefined, urlParams = Obj [(''installationId'', Num n)]\<rparr>]\<rparr>)"
  using appAuthenticationHeaders_Inr [OF assms]
  by (simp add: getInstallation_def await_def axios_request_def)

text \<open>Without an app token nothing is sent: the failure of the holder is the outcome.\<close>

lemma no_app_token:
  assumes "getAppToken C i (appTokenHolder w) = (Inl e, h)"
  shows "createInstallationToken C i n w = (Inl e, w\<lparr>appTokenHolder := h\<rparr>)"
    and "getInstallation C i n w = (Inl e, w\<lparr>appTokenHolder := h\<rparr>)"
  using appAuthenticationHeaders_Inl [OF assms]
  by (simp_all add: createInstallationToken_def getInstallation_def await_def)

lemma installation_headers_Inr:
  "getInstallationToken C (installationId i) (createInstallationToken C i (installationId i)) w = (Inr t, w')
   \<Longrightarrow> installationAuthenticationHeaders C i w = (Inr (bearer t), w')"
  by (simp add: installationAuthenticationHeaders_from_cache)

lemma installation_headers_Inl:
  "getInstallationToken C (installationId i) (createInstallationToken C i (installationId i)) w = (Inl e, w')
   \<Longrightarrow> installationAuthenticationHeaders C i w = (Inl e, w')"
  by (simp add: installationAuthenticationHeaders_from_cache)

lemma get_installation_token:
  assumes "getInstallationToken C (installationId i) (createInstallationToken C i (installationId i)) w = (Inr t, w')"
  shows "get C i u p up w =
          (rest_call C (sent w')
             \<lparr>verb = GET, url = u, body = Undefined, request_headers = bearer t,
              params = default_object p, urlParams = default_object up\<rparr>,
           w'\<lparr>sent := sent w' @
               [\<lparr>verb = GET, url = u, body = Undefined, request_headers = bearer t,
                 params = default_object p, urlParams = default_object up\<rparr>]\<rparr>)"
  using installation_headers_Inr [OF assms]
  by (simp add: get_def await_def axios_request_def)

lemma patch_installation_token:
  assumes "getInstallationToken C (installationId i) (createInstallationToken C i (installationId i)) w = (Inr t, w')"
  shows "patch C i u b p up w =
          (rest_call C (sent w')
             \<lparr>verb = PATCH, url = u, body = default_object b, request_headers = bearer t,
              params = default_object p, urlParams = default_object up\<rparr>,
           w'\<lparr>sent := sent w' @
               [\<lparr>verb = PATCH, url = u, body = default_object b, request_headers = bearer t,
                 params = default_object p, urlParams = default_object up\<rparr>]\<rparr>)"
  using installation_headers_Inr [OF assms]
  by (simp add: patch_def await_def axios_request_def)

lemma graphql_installation_token:
  assumes "getInstallationToken C (installationId i) (createInstallationToken C i (installationId i)) w = (Inr t, w')"
  shows "graphql C i q v w =
          (case post_graphql C (sent w')
                  \<lparr>verb = POST, url = ''/graphql'',
                   body = Obj [(''query'', Str q), (''variables'', v)],
                   request_headers = bearer t,
                   params = Undefined, urlParams = Undefined\<rparr> of
             Inl e \<Rightarrow> Inl e
           | Inr response \<Rightarrow> graphql_settle response,
           w'\<lparr>sent := sent w' @
               [\<lparr>verb = POST, url = ''/graphql'',
                 body = Obj [(''query'', Str q), (''variables'', v)],
                 request_headers = bearer t,
                 params = Undefined, urlParams = Undefined\<rparr>]\<rparr>)"
  using installation_headers_Inr [OF assms]
  by (simp add: graphql_def await_def axios_request_def split: sum.splits)

text \<open>Without an installation token nothing is sent either.\<close>

lemma no_installation_token:
  assumes "getInstallationToken C (installationId i) (createInstallationToken C i (installationId i)) w = (Inl e, w')"
  shows "get C i u p up w = (Inl e, w')" and "patch C i u b p up w = (Inl e, w')"
    and "graphql C i q v w = (Inl e, w')"
  using installation_headers_Inl [OF assms]
  by (simp_all add: get_def patch_def graphql_def await_def)

text \<open>
  C8. The headers of an installation-authenticated request are built from the token that
  \<open>getInstallationToken\<close> of the cache settles with, called with the installation id and
  with \<open>createInstallationToken\<close> as the fetch function. That function first takes an app
  token from the holder, then hands axios one POST to
  \<open>/app/installations/{githubInstallationId}/access_tokens\<close> carrying \<open>Bearer\<close> and the
  app token, and resolves with the \<open>AuthToken\<close> made of the response's \<open>token\<close> and of the
  date of its \<open>expires_at\<close>. \<open>get\<close>, \<open>patch\<close> and \<open>graphql\<close> send exactly one
  request, carrying \<open>Bearer\<close> and the installation token; \<open>getInstallation\<close>, the
  app-authenticated request, carries the holder's token itself.
\<close>

theorem authentication_modes:
  "installationAuthenticationHeaders C i w =
     (case getInstallationToken C (installationId i) (createInstallationToken C i (installationId i)) w of
        (Inl e, w') \<Rightarrow> (Inl e, w')
      | (Inr t, w') \<Rightarrow> (Inr (bearer t), w'))
   \<and> (getAppToken C i (appTokenHolder w) = (Inr appToken, h) \<longrightarrow>
        createInstallationToken C i n w =
          (case post_access_tokens C (sent w) (access_tokens_request appToken n) of
             Inl e \<Rightarrow> Inl e
           | Inr response \<Rightarrow> Inr \<lparr>token = response_token (data response),
                                   expiresAt = Date C (expires_at (data response))\<rparr>,
           w\<lparr>appTokenHolder := h, sent := sent w @ [access_tokens_request appToken n]\<rparr>)
        \<and> getInstallation C i n w =
          (rest_call C (sent w)
             \<lparr>verb = GET, url = ''/app/installations/{installationId}'', body = Undefined,
              request_headers = bearer appToken,
              params = Undefined, urlParams = Obj [(''installationId'', Num n)]\<rparr>,
           w\<lparr>appTokenHolder := h,
             sent := sent w @
               [\<lparr>verb = GET, url = ''/app/installations/{installationId}'', body = Undefined,
                 request_headers = bearer appToken,
                 params = Undefined, urlParams = Obj [(''installationId'', Num n)]\<rparr>]\<rparr>))
   \<and> (getInstallationToken C (installationId i) (createInstallationToken C i (installationId i)) w = (Inr t, w') \<longrightarrow>
        get C i u p up w =
          (rest_call C (sent w')
             \<lparr>verb = GET, url = u, body = Undefined, request_headers = bearer t,
              params = default_object p, urlParams = default_object up\<rparr>,
           w'\<lparr>sent := sent w' @
               [\<lparr>verb = GET, url = u, body = Undefined, request_headers = bearer t,
                 params = default_object p, urlParams = default_object up\<rparr>]\<rparr>)
        \<and> patch C i u b p up w =
          (rest_call C (sent w')
             \<lparr>verb = PATCH, url = u, body = default_object b, request_headers = bearer t,
              params = default_object p, urlParams = default_object up\<rparr>,
           w'\<lparr>sent := sent w' @
               [\<lparr>verb = PATCH, url = u, body = default_object b, request_headers = bearer t,
                 params = default_object p, urlParams = default_object up\<rparr>]\<rparr>)
        \<and> graphql C i q v w =
          (case post_graphql C (sent w')
                  \<lparr>verb = POST, url = ''/graphql'',
                   body = Obj [(''query'', Str q), (''variables'', v)],
                   request_headers = bearer t,
                   params = Undefined, urlParams = Undefined\<rparr> of
             Inl e \<Rightarrow> Inl e
           | Inr response \<Rightarrow> graphql_settle response,
           w'\<lparr>sent := sent w' @
               [\<lparr>verb = POST, url = ''/graphql'',
                 body = Obj [(''query'', Str q), (''variables'', v)],
                 request_headers = bearer t,
                 params = Undefined, urlParams = Undefined\<rparr>]\<rparr>))"
proof (intro conjI impI)
  show "installationAuthenticationHeaders C i w =
     (case getInstallationToken C (installationId i) (createInstallationToken C i (installationId i)) w of
        (Inl e, w') \<Rightarrow> (Inl e, w')
      | (Inr t, w') \<Rightarrow> (Inr (bearer t), w'))"
    by (rule installationAuthenticationHeaders_from_cache)
qed (erule createInstallationToken_exchange getInstallation_app_token get_installation_token
       patch_installation_token graphql_installation_token)+

theorem authentication_modes_witness:
  "createInstallationToken demo demo_id 17979017 demo_world =
     (Inr \<lparr>token = ''ghs_1'', expiresAt = 1637798400000\<rparr>,
      \<lparr>appTokenHolder = 1, installationTokenCache = (),
       sent = [access_tokens_request \<lparr>token = ''app-jwt'', expiresAt = 600000\<rparr> 17979017]\<rparr>)
   \<and> get demo demo_id ''/repos/{owner}/{repo}/pulls'' (Obj []) (Obj [(''owner'', Str ''o''), (''repo'', Str ''r'')]) demo_world =
     (rest_call demo [access_tokens_request \<lparr>token = ''app-jwt'', expiresAt = 600000\<rparr> 17979017]
        \<lparr>verb = GET, url = ''/repos/{owner}/{repo}/pulls'', body = Undefined,
         request_headers = bearer \<lparr>token = ''ghs_1'', expiresAt = 1637798400000\<rparr>,
         params = Obj [], urlParams = Obj [(''owner'', Str ''o''), (''repo'', Str ''r'')]\<rparr>,
      \<lparr>appTokenHolder = 1, installationTokenCache = (),
       sent = [access_tokens_request \<lparr>token = ''app-jwt'', expiresAt = 600000\<rparr> 17979017,
               \<lparr>verb = GET, url = ''/repos/{owner}/{repo}/pulls'', body = Undefined,
                request_headers = bearer \<lparr>token = ''ghs_1'', expiresAt = 1637798400000\<rparr>,
                params = Obj [], urlParams = Obj [(''owner'', Str ''o''), (''repo'', Str ''r'')]\<rparr>]\<rparr>)"
proof -
  have app: "getAppToken demo demo_id (appTokenHolder demo_world)
               = (Inr \<lparr>token = ''app-jwt'', expiresAt = 600000\<rparr>, 1)"
    by (simp add: demo_def demo_world_def)
  from authentication_modes [where C = demo and i = demo_id and w = demo_world and n = 17979017,
         THEN conjunct2, THEN conjunct1, THEN mp, OF app, THEN conjunct1]
  have create: "createInstallationToken demo demo_id 17979017 demo_world =
     (Inr \<lparr>token = ''ghs_1'', expiresAt = 1637798400000\<rparr>,
      \<lparr>appTokenHolder = 1, installationTokenCache = (),
       sent = [access_tokens_request \<lparr>token = ''app-jwt'', expiresAt = 600000\<rparr> 17979017]\<rparr>)"
    by (simp add: demo_def demo_world_def)
  then have cached: "getInstallationToken demo (installationId demo_id)
      (createInstallationToken demo demo_id (installationId demo_id)) demo_world =
     (Inr \<lparr>token = ''ghs_1'', expiresAt = 1637798400000\<rparr>,
      \<lparr>appTokenHolder = 1, installationTokenCache = (),
       sent = [access_tokens_request \<lparr>token = ''app-jwt'', expiresAt = 600000\<rparr> 17979017]\<rparr>)"
    by (simp add: demo_def demo_id_def)
  from authentication_modes [where C = demo and i = demo_id and w = demo_world,
         THEN conjunct2, THEN conjunct2, THEN mp, OF cached, THEN conjunct1]
  have "get demo demo_id ''/repos/{owner}/{repo}/pulls'' (Obj []) (Obj [(''owner'', Str ''o''), (''repo'', Str ''r'')]) demo_world =
     (rest_call demo [access_tokens_request \<lparr>token = ''app-jwt'', expiresAt = 600000\<rparr> 17979017]
        \<lparr>verb = GET, url = ''/repos/{owner}/{repo}/pulls'', body = Undefined,
         request_headers = bearer \<lparr>token = ''ghs_1'', expiresAt = 1637798400000\<rparr>,
         params = Obj [], urlParams = Obj [(''owner'', Str ''o''), (''repo'', Str ''r'')]\<rparr>,
      \<lparr>appTokenHolder = 1, installationTokenCache = (),
       sent = [access_tokens_request \<lparr>token = ''app-jwt'', expiresAt = 600000\<rparr> 17979017,
               \<lparr>verb = GET, url = ''/repos/{owner}/{repo}/pulls'', body = Undefined,
                request_headers = bearer \<lparr>token = ''ghs_1'', expiresAt = 1637798400000\<rparr>,
                params = Obj [], urlParams = Obj [(''owner'', Str ''o''), (''repo'', Str ''r'')]\<rparr>]\<rparr>)"
    by simp
  with create show ?thesis by simp
qed

section \<open>Rate-limit classification and the generic GraphQL error\<close>

lemma find_eq_None_iff: "find P xs = None \<longleftrightarrow> (\<forall>x \<in> set xs. \<not> P x)"
  by (induction xs) auto

lemma settle_rate_limited:
  assumes "errors (data response) = Some graphqlErrors"
    and "e \<in> set graphqlErrors"
    and "type e = ''RATE_LIMITED''"
  shows "graphql_settle response = Inl (RateLimitingError response)"
proof -
  from assms(2) have ne: "length graphqlErrors \<noteq> 0" by auto
  from assms(2,3) have "find (\<lambda>err. type err = ''RATE_LIMITED'') graphqlErrors \<noteq> None"
    by (auto simp: find_eq_None_iff)
  with ne assms(1) show ?thesis
    by (simp add: graphql_settle_def)
qed


lemma graphql_of_response:
  assumes "getInstallationToken C (installationId i) (createInstallationToken C i (installationId i)) w = (Inr t, w')"
    and "post_graphql C (sent w') (graphql_request t q v) = Inr response"
  shows "graphql C i q v w = (graphql_settle response, w'\<lparr>sent := sent w' @ [graphql_request t q v]\<rparr>)"
  using graphql_installation_token [OF assms(1), of q v] assms(2)
  by (simp add: graphql_request_def)

lemma demo_installation_token:
  assumes "getAppToken C = getAppToken demo" and "getInstallationToken C = getInstallationToken demo"
    and "post_access_tokens C = post_access_tokens demo" and "Date C = Date demo"
  shows "getInstallationToken C (installationId demo_id)
           (createInstallationToken C demo_id (installationId demo_id)) demo_world
         = (Inr \<lparr>token = ''ghs_1'', expiresAt = 1637798400000\<rparr>,
            \<lparr>appTokenHolder = 1, installationTokenCache = (),
             sent = [access_tokens_request \<lparr>token = ''app-jwt'', expiresAt = 600000\<rparr> 17979017]\<rparr>)"
  by (simp add: assms client_defs demo_def demo_id_def demo_world_def access_tokens_request_def bearer_def)

text \<open>
  C4. A response whose \<open>errors\<close> array has at least one entry of type \<open>RATE_LIMITED\<close> is
  settled as \<open>RateLimitingError\<close> carrying that very response, whatever other entries the
  array holds and wherever the rate-limit entry stands, and never as the generic
  \<open>GithubClientGraphQLError\<close>; so \<open>graphql\<close> rejects with it whenever the POST returns
  such a response.
\<close>

theorem graphql_rate_limited:
  assumes "errors (data response) = Some graphqlErrors"
    and "e \<in> set graphqlErrors"
    and "type e = ''RATE_LIMITED''"
  shows "graphql_settle response = Inl (RateLimitingError response)
       \<and> graphql_settle response \<noteq> Inl (GithubClientGraphQLError m es)
       \<and> (getInstallationToken C (installationId i) (createInstallationToken C i (installationId i)) w = (Inr t, w')
            \<and> post_graphql C (sent w') (graphql_request t q v) = Inr response \<longrightarrow>
          graphql C i q v w =
            (Inl (RateLimitingError response), w'\<lparr>sent := sent w' @ [graphql_request t q v]\<rparr>))"
  by (simp add: settle_rate_limited [OF assms] graphql_of_response)

theorem graphql_rate_limited_witness:
  "graphql demo_rate_limited demo_id ''query { viewer { login } }'' Undefined demo_world =
     (Inl (RateLimitingError rate_limited_response),
      \<lparr>appTokenHolder = 1, installationTokenCache = (),
       sent = [access_tokens_request \<lparr>token = ''app-jwt'', expiresAt = 600000\<rparr> 17979017,
               graphql_request \<lparr>token = ''ghs_1'', expiresAt = 1637798400000\<rparr>
                 ''query { viewer { login } }'' Undefined]\<rparr>)"
proof -
  have errs: "errors (data rate_limited_response) =
      Some [\<lparr>message = ''Could not resolve to a Repository'', type = ''NOT_FOUND''\<rparr>,
            \<lparr>message = ''API rate limit exceeded'', type = ''RATE_LIMITED''\<rparr>]"
    by (simp add: rate_limited_response_def)
  have mem: "\<lparr>message = ''API rate limit exceeded'', type = ''RATE_LIMITED''\<rparr>
      \<in> set [\<lparr>message = ''Could not resolve to a Repository'', type = ''NOT_FOUND''\<rparr>,
               \<lparr>message = ''API rate limit exceeded'', type = ''RATE_LIMITED''\<rparr>]"
    by simp
  have ty: "type \<lparr>message = ''API rate limit exceeded'', type = ''RATE_LIMITED''\<rparr> = ''RATE_LIMITED''"
    by simp
  have tok: "getInstallationToken demo_rate_limited (installationId demo_id)
           (createInstallationToken demo_rate_limited demo_id (installationId demo_id)) demo_world
         = (Inr \<lparr>token = ''ghs_1'', expiresAt = 1637798400000\<rparr>,
            \<lparr>appTokenHolder = 1, installationTokenCache = (),
             sent = [access_tokens_request \<lparr>token = ''app-jwt'', expiresAt = 600000\<rparr> 17979017]\<rparr>)"
    by (rule demo_installation_token) (simp_all add: demo_rate_limited_def)
  have post: "post_graphql demo_rate_limited
       (sent \<lparr>appTokenHolder = 1, installationTokenCache = (),
             sent = [access_tokens_request \<lparr>token = ''app-jwt'', expiresAt = 600000\<rparr> 17979017]\<rparr>)
       (graphql_request \<lparr>token = ''ghs_1'', expiresAt = 1637798400000\<rparr> ''query { viewer { login } }'' Undefined)
       = Inr rate_limited_response"
    by (simp add: demo_rate_limited_def)
  from graphql_rate_limited [OF errs mem ty, THEN conjunct2, THEN conjunct2, THEN mp, OF conjI, OF tok post]
  show ?thesis by simp
qed



section \<open>The changedFiles fallback\<close>

lemma graphql_cached:
  assumes "\<forall>w0. getInstallationToken C (installationId i) (createInstallationToken C i (installationId i)) w0 = (Inr t, w0)"
  shows "graphql C i q v w =
          (case post_graphql C (sent w) (graphql_request t q v) of
             Inl e \<Rightarrow> Inl e
           | Inr response \<Rightarrow> graphql_settle response,
           w\<lparr>sent := sent w @ [graphql_request t q v]\<rparr>)"
  using graphql_installation_token [of C i w t w q v] assms
  by (simp add: graphql_request_def)

lemma getBranchesPage_flow:
  assumes "graphql C i (getBranchesQueryWithChangedFiles C)
             (page_variables owner repoName (Num perPage) cursor) w = (Inl err, w1)"
  shows "getBranchesPage C i owner repoName perPage cursor w =
           (if isChangedFilesError C err
            then (case graphql C i (getBranchesQueryWithoutChangedFiles C)
                         (page_variables owner repoName (Num perPage) cursor) w1 of
                    (Inl err2, w2) \<Rightarrow> (Inl err2, w2)
                  | (Inr response, w2) \<Rightarrow> (Inr (gql_data (data response)), w2))
            else (Inl err, w1))"
  using assms
  by (simp add: getBranchesPage_def page_variables_def await_def catch_def resolve_def reject_def
           split: prod.splits sum.splits)

lemma getCommitsPage_flow:
  assumes "graphql C i (getCommitsQueryWithChangedFiles C)
             (page_variables owner repoName perPage cursor) w = (Inl err, w1)"
  shows "getCommitsPage C i owner repoName perPage cursor w =
           (if isChangedFilesError C err
            then (case graphql C i (getCommitsQueryWithoutChangedFiles C)
                         (page_variables owner repoName perPage cursor) w1 of
                    (Inl err2, w2) \<Rightarrow> (Inl err2, w2)
                  | (Inr response, w2) \<Rightarrow> (Inr (gql_data (data response)), w2))
            else (Inl err, w1))"
  using assms
  by (simp add: getCommitsPage_def page_variables_def await_def catch_def resolve_def reject_def
           split: prod.splits sum.splits)

lemma getBranchesPage_sent:
  assumes "\<forall>w0. getInstallationToken C (installationId i) (createInstallationToken C i (installationId i)) w0 = (Inr t, w0)"
  shows "sent (snd (getBranchesPage C i owner repoName perPage cursor w)) =
           sent w @
           graphql_request t (getBranchesQueryWithChangedFiles C)
             (page_variables owner repoName (Num perPage) cursor) #
           (case fst (graphql C i (getBranchesQueryWithChangedFiles C)
                        (page_variables owner repoName (Num perPage) cursor) w) of
              Inl err \<Rightarrow>
                if isChangedFilesError C err
                then [graphql_request t (getBranchesQueryWithoutChangedFiles C)
                        (page_variables owner repoName (Num perPage) cursor)]
                else []
            | Inr response \<Rightarrow> [])"
  by (simp add: getBranchesPage_def page_variables_def graphql_cached [OF assms]
        await_def catch_def resolve_def reject_def split: sum.splits)

lemma getCommitsPage_sent:
  assumes "\<forall>w0. getInstallationToken C (installationId i) (createInstallationToken C i (installationId i)) w0 = (Inr t, w0)"
  shows "sent (snd (getCommitsPage C i owner repoName perPage cursor w)) =
           sent w @
           graphql_request t (getCommitsQueryWithChangedFiles C)
             (page_variables owner repoName perPage cursor) #
           (case fst (graphql C i (getCommitsQueryWithChangedFiles C)
                        (page_variables owner repoName perPage cursor) w) of
              Inl err \<Rightarrow>
                if isChangedFilesError C err
                then [graphql_request t (getCommitsQueryWithoutChangedFiles C)
                        (page_variables owner repoName perPage cursor)]
                else []
            | Inr response \<Rightarrow> [])"
  by (simp add: getCommitsPage_def page_variables_def graphql_cached [OF assms]
        await_def catch_def resolve_def reject_def split: sum.splits)

lemma demo_cached_hit:
  "\<forall>w0. getInstallationToken demo_cached (installationId demo_id)
         (createInstallationToken demo_cached demo_id (installationId demo_id)) w0
       = (Inr \<lparr>token = ''ghs_0'', expiresAt = 1637798400000\<rparr>, w0)"
  by (simp add: demo_cached_def)

text \<open>
  C5. When the first query of \<open>getBranchesPage\<close> or \<open>getCommitsPage\<close> is rejected with
  an error that \<open>isChangedFilesError\<close> recognises, the operation is exactly one more
  \<open>graphql\<close> call, with the query that leaves \<open>changedFiles\<close> out and the same variables,
  run on the state the first call left: its rejection is the rejection of the operation (no
  further call), its response gives the page. When the first query is rejected with any
  other error, that error is the outcome and the state is the one the first call left: no
  second call is made. Counted in requests, for a cache that answers from a valid entry: the
  operation sends the first query, then the second query only after a changedFiles error,
  and nothing more.
\<close>

theorem changedFiles_retry_once:
  "(graphql C i (getBranchesQueryWithChangedFiles C)
      (page_variables owner repoName (Num perPage) cursor) w = (Inl err, w1) \<longrightarrow>
    getBranchesPage C i owner repoName perPage cursor w =
      (if isChangedFilesError C err
       then (case graphql C i (getBranchesQueryWithoutChangedFiles C)
                    (page_variables owner repoName (Num perPage) cursor) w1 of
               (Inl err2, w2) \<Rightarrow> (Inl err2, w2)
             | (Inr response, w2) \<Rightarrow> (Inr (gql_data (data response)), w2))
       else (Inl err, w1)))
   \<and>
   (graphql C i (getCommitsQueryWithChangedFiles C)
      (page_variables owner repoName perPageOpt cursor) w = (Inl err, w1) \<longrightarrow>
    getCommitsPage C i owner repoName perPageOpt cursor w =
      (if isChangedFilesError C err
       then (case graphql C i (getCommitsQueryWithoutChangedFiles C)
                    (page_variables owner repoName perPageOpt cursor) w1 of
               (Inl err2, w2) \<Rightarrow> (Inl err2, w2)
             | (Inr response, w2) \<Rightarrow> (Inr (gql_data (data response)), w2))
       else (Inl err, w1)))
   \<and>
   ((\<forall>w0. getInstallationToken C (installationId i) (createInstallationToken C i (installationId i)) w0
            = (Inr t, w0)) \<longrightarrow>
      sent (snd (getBranchesPage C i owner repoName perPage cursor w)) =
        sent w @
        graphql_request t (getBranchesQueryWithChangedFiles C)
          (page_variables owner repoName (Num perPage) cursor) #
        (case fst (graphql C i (getBranchesQueryWithChangedFiles C)
                     (page_variables owner repoName (Num perPage) cursor) w) of
           Inl err \<Rightarrow>
             if isChangedFilesError C err
             then [graphql_request t (getBranchesQueryWithoutChangedFiles C)
                     (page_variables owner repoName (Num perPage) cursor)]
             else []
         | Inr response \<Rightarrow> [])
      \<and>
      sent (snd (getCommitsPage C i owner repoName perPageOpt cursor w)) =
        sent w @
        graphql_request t (getCommitsQueryWithChangedFiles C)
          (page_variables owner repoName perPageOpt cursor) #
        (case fst (graphql C i (getCommitsQueryWithChangedFiles C)
                     (page_variables owner repoName perPageOpt cursor) w) of
           Inl err \<Rightarrow>
             if isChangedFilesError C err
             then [graphql_request t (getCommitsQueryWithoutChangedFiles C)
                     (page_variables owner repoName perPageOpt cursor)]
             else []
         | Inr response \<Rightarrow> []))"
  by (intro conjI impI getBranchesPage_flow getCommitsPage_flow getBranchesPage_sent
        getCommitsPage_sent) assumption+

text \<open>
  Three runs: a changedFiles error answered by one retry (four requests in all, each
  \<open>graphql\<close> call preceded by its token exchange); a \<open>NOT_FOUND\<close> error that ends the
  operation after the first query; and the first run again with the installation token
  cached, which sends the two queries and nothing else.
\<close>

theorem changedFiles_retry_once_witness:
  "getBranchesPage demo demo_id ''o'' ''r'' 5 Undefined demo_world =
     (Inr (Str ''page''),
      \<lparr>appTokenHolder = 2, installationTokenCache = (),
       sent = [access_tokens_request \<lparr>token = ''app-jwt'', expiresAt = 600000\<rparr> 17979017,
               graphql_request \<lparr>token = ''ghs_1'', expiresAt = 1637798400000\<rparr> ''with''
                 (page_variables ''o'' ''r'' (Num 5) Undefined),
               access_tokens_request \<lparr>token = ''app-jwt'', expiresAt = 600000\<rparr> 17979017,
               graphql_request \<lparr>token = ''ghs_1'', expiresAt = 1637798400000\<rparr> ''without''
                 (page_variables ''o'' ''r'' (Num 5) Undefined)]\<rparr>)
   \<and> getCommitsPage demo_not_found demo_id ''o'' ''r'' (Num 5) Undefined demo_world =
     (Inl (GithubClientGraphQLError ''Could not resolve to a Repository''
             [\<lparr>message = ''Could not resolve to a Repository'', type = ''NOT_FOUND''\<rparr>]),
      \<lparr>appTokenHolder = 1, installationTokenCache = (),
       sent = [access_tokens_request \<lparr>token = ''app-jwt'', expiresAt = 600000\<rparr> 17979017,
               graphql_request \<lparr>token = ''ghs_1'', expiresAt = 1637798400000\<rparr> ''with''
                 (page_variables ''o'' ''r'' (Num 5) Undefined)]\<rparr>)
   \<and> sent (snd (getBranchesPage demo_cached demo_id ''o'' ''r'' 5 Undefined demo_world)) =
     [graphql_request \<lparr>token = ''ghs_0'', expiresAt = 1637798400000\<rparr> ''with''
        (page_variables ''o'' ''r'' (Num 5) Undefined),
      graphql_request \<lparr>token = ''ghs_0'', expiresAt = 1637798400000\<rparr> ''without''
        (page_variables ''o'' ''r'' (Num 5) Undefined)]"
proof -
  note eval = client_defs demo_id_def demo_world_def graphql_settle_def graphQlErrorMessage_def
    access_tokens_request_def graphql_request_def bearer_def page_variables_def
  obtain err w1 where first: "graphql demo demo_id (getBranchesQueryWithChangedFiles demo)
      (page_variables ''o'' ''r'' (Num 5) Undefined) demo_world = (Inl err, w1)"
    and err: "err = GithubClientGraphQLError changedFilesMessage
                     [\<lparr>message = changedFilesMessage, type = ''SERVICE_UNAVAILABLE''\<rparr>]"
    and w1: "w1 = \<lparr>appTokenHolder = 1, installationTokenCache = (),
       sent = [access_tokens_request \<lparr>token = ''app-jwt'', expiresAt = 600000\<rparr> 17979017,
               graphql_request \<lparr>token = ''ghs_1'', expiresAt = 1637798400000\<rparr> ''with''
                 (page_variables ''o'' ''r'' (Num 5) Undefined)]\<rparr>"
    by (simp add: eval demo_def)
  have cfe: "isChangedFilesError demo err"
    by (simp add: err demo_def changedFilesMessage_def)
  have retry: "graphql demo demo_id (getBranchesQueryWithoutChangedFiles demo)
      (page_variables ''o'' ''r'' (Num 5) Undefined) w1
      = (Inr \<lparr>data = \<lparr>gql_data = Str ''page'', errors = None\<rparr>, status = 200, headers = Map.empty\<rparr>,
      \<lparr>appTokenHolder = 2, installationTokenCache = (),
       sent = [access_tokens_request \<lparr>token = ''app-jwt'', expiresAt = 600000\<rparr> 17979017,
               graphql_request \<lparr>token = ''ghs_1'', expiresAt = 1637798400000\<rparr> ''with''
                 (page_variables ''o'' ''r'' (Num 5) Undefined),
               access_tokens_request \<lparr>token = ''app-jwt'', expiresAt = 600000\<rparr> 17979017,
               graphql_request \<lparr>token = ''ghs_1'', expiresAt = 1637798400000\<rparr> ''without''
                 (page_variables ''o'' ''r'' (Num 5) Undefined)]\<rparr>)"
    by (simp add: w1 eval demo_def)
  from changedFiles_retry_once [THEN conjunct1, THEN mp, OF first] cfe retry
  have branches: "getBranchesPage demo demo_id ''o'' ''r'' 5 Undefined demo_world =
     (Inr (Str ''page''),
      \<lparr>appTokenHolder = 2, installationTokenCache = (),
       sent = [access_tokens_request \<lparr>token = ''app-jwt'', expiresAt = 600000\<rparr> 17979017,
               graphql_request \<lparr>token = ''ghs_1'', expiresAt = 1637798400000\<rparr> ''with''
                 (page_variables ''o'' ''r'' (Num 5) Undefined),
               access_tokens_request \<lparr>token = ''app-jwt'', expiresAt = 600000\<rparr> 17979017,
               graphql_request \<lparr>token = ''ghs_1'', expiresAt = 1637798400000\<rparr> ''without''
                 (page_variables ''o'' ''r'' (Num 5) Undefined)]\<rparr>)"
    by simp
  have first': "graphql demo_not_found demo_id (getCommitsQueryWithChangedFiles demo_not_found)
      (page_variables ''o'' ''r'' (Num 5) Undefined) demo_world
      = (Inl (GithubClientGraphQLError ''Could not resolve to a Repository''
             [\<lparr>message = ''Could not resolve to a Repository'', type = ''NOT_FOUND''\<rparr>]),
      \<lparr>appTokenHolder = 1, installationTokenCache = (),
       sent = [access_tokens_request \<lparr>token = ''app-jwt'', expiresAt = 600000\<rparr> 17979017,
               graphql_request \<lparr>token = ''ghs_1'', expiresAt = 1637798400000\<rparr> ''with''
                 (page_variables ''o'' ''r'' (Num 5) Undefined)]\<rparr>)"
    by (simp add: eval demo_not_found_def demo_def)
  have other: "\<not> isChangedFilesError demo_not_found
      (GithubClientGraphQLError ''Could not resolve to a Repository''
         [\<lparr>message = ''Could not resolve to a Repository'', type = ''NOT_FOUND''\<rparr>])"
    by (simp add: demo_not_found_def demo_def)
  from changedFiles_retry_once [THEN conjunct2, THEN conjunct1, THEN mp, OF first'] other
  have commits: "getCommitsPage demo_not_found demo_id ''o'' ''r'' (Num 5) Undefined demo_world =
     (Inl (GithubClientGraphQLError ''Could not resolve to a Repository''
             [\<lparr>message = ''Could not resolve to a Repository'', type = ''NOT_FOUND''\<rparr>]),
      \<lparr>appTokenHolder = 1, installationTokenCache = (),
       sent = [access_tokens_request \<lparr>token = ''app-jwt'', expiresAt = 600000\<rparr> 17979017,
               graphql_request \<lparr>token = ''ghs_1'', expiresAt = 1637798400000\<rparr> ''with''
                 (page_variables ''o'' ''r'' (Num 5) Undefined)]\<rparr>)"
    by simp
  have first'': "fst (graphql demo_cached demo_id (getBranchesQueryWithChangedFiles demo_cached)
      (page_variables ''o'' ''r'' (Num 5) Undefined) demo_world)
      = Inl (GithubClientGraphQLError changedFilesMessage
               [\<lparr>message = changedFilesMessage, type = ''SERVICE_UNAVAILABLE''\<rparr>])"
    by (subst graphql_cached [OF demo_cached_hit])
       (simp add: demo_cached_def demo_def graphql_request_def page_variables_def
          graphql_settle_def graphQlErrorMessage_def)
  have cfe'': "isChangedFilesError demo_cached (GithubClientGraphQLError changedFilesMessage
               [\<lparr>message = changedFilesMessage, type = ''SERVICE_UNAVAILABLE''\<rparr>])"
    by (simp add: demo_cached_def demo_def changedFilesMessage_def)
  have q: "getBranchesQueryWithChangedFiles demo_cached = ''with''"
     "getBranchesQueryWithoutChangedFiles demo_cached = ''without''"
    by (simp_all add: demo_cached_def demo_def)
  from changedFiles_retry_once [where C = demo_cached and i = demo_id and owner = "''o''"
         and repoName = "''r''" and perPage = 5 and cursor = Undefined and w = demo_world,
         THEN conjunct2, THEN conjunct2, THEN mp, OF demo_cached_hit, THEN conjunct1]
    first'' cfe'' q
  have requests: "sent (snd (getBranchesPage demo_cached demo_id ''o'' ''r'' 5 Undefined demo_world)) =
     [graphql_request \<lparr>token = ''ghs_0'', expiresAt = 1637798400000\<rparr> ''with''
        (page_variables ''o'' ''r'' (Num 5) Undefined),
      graphql_request \<lparr>token = ''ghs_0'', expiresAt = 1637798400000\<rparr> ''without''
        (page_variables ''o'' ''r'' (Num 5) Undefined)]"
    by (simp add: demo_world_def)
  from branches commits requests show ?thesis by (intro conjI)
qed

section \<open>The next-page flag\<close>

lemma js_includes_sublist: "js_includes s sub \<longleftrightarrow> sublist sub s"
  by (induction s) (simp_all add: sublist_Cons_right)

lemma hasNextPage_paginated:
  "hasNextPage (paginated response) \<longleftrightarrow>
     (\<exists>link. headers response ''link'' = Some link \<and> sublist rel_next link)"
  by (simp add: paginated_def js_includes_sublist split: option.splits)

text \<open>
  C9. In every response that \<open>getRepositoriesPage\<close> resolves with, \<open>hasNextPage\<close> is
  true exactly when the response has a \<open>link\<close> header and \<open>rel="next"\<close> occurs in it. The
  response is the one \<open>get\<close> returned with the flag added, and the flag stays the same
  when the payload is replaced by any other.
\<close>

theorem hasNextPage_iff_link_next:
  assumes "getRepositoriesPage C this_id page w = (Inr r, w')"
  shows "(hasNextPage r \<longleftrightarrow>
           (\<exists>link before after. headers r ''link'' = Some link \<and> link = before @ rel_next @ after))
         \<and> (\<exists>response. get C this_id ''/installation/repositories?per_page={perPage}&page={page}''
                 (Obj []) (Obj [(''perPage'', Num 100), (''page'', Num (case page of None \<Rightarrow> 1 | Some n \<Rightarrow> n))]) w = (Inr response, w')
               \<and> r = paginated response
               \<and> hasNextPage (paginated (response\<lparr>data := other_payload\<rparr>)) = hasNextPage r)"
proof -
  from assms obtain response where g: "get C this_id ''/installation/repositories?per_page={perPage}&page={page}''
                 (Obj []) (Obj [(''perPage'', Num 100), (''page'', Num (case page of None \<Rightarrow> 1 | Some n \<Rightarrow> n))]) w = (Inr response, w')"
    and r: "r = paginated response"
    by (auto simp: getRepositoriesPage_def Let_def await_def resolve_def split: prod.splits sum.splits)
  have h: "headers r = headers response" by (simp add: r paginated_def)
  have "hasNextPage r \<longleftrightarrow> (\<exists>link. headers r ''link'' = Some link \<and> sublist rel_next link)"
    unfolding h unfolding r by (rule hasNextPage_paginated)
  moreover have "hasNextPage (paginated (response\<lparr>data := other_payload\<rparr>)) = hasNextPage r"
    by (simp add: r paginated_def)
  ultimately show ?thesis using g r
    by (auto simp: sublist_def)
qed

theorem hasNextPage_iff_link_next_witness:
  "hasNextPage (projr (fst (getRepositoriesPage demo demo_id None demo_world))) \<and>
   headers (projr (fst (getRepositoriesPage demo demo_id None demo_world))) ''link''
     = Some (''<https://api.github.com/installation/repositories?page=2>; '' @ rel_next @ '''')"
proof -
  obtain r w' where run: "getRepositoriesPage demo demo_id None demo_world = (Inr r, w')"
    by (simp add: client_defs demo_def demo_id_def demo_world_def)
  have link: "headers r ''link''
     = Some (''<https://api.github.com/installation/repositories?page=2>; '' @ rel_next @ '''')"
    using run by (auto simp: client_defs demo_def demo_id_def demo_world_def paginated_def rel_next_def)
  from hasNextPage_iff_link_next [OF run] link have "hasNextPage r"
    by blast
  with link run show ?thesis by simp
qed

text \<open>A response without a \<open>link\<close> header, or with one that names no next page, has no next page.\<close>

lemma hasNextPage_examples:
  "\<not> hasNextPage (paginated \<lparr>data = Obj [], status = 200, headers = Map.empty\<rparr>)"
  \<open>\<not> hasNextPage (paginated \<lparr>data = Obj [], status = 200,
       headers = [''link'' \<mapsto> ''<https://api.github.com/installation/repositories?page=1>; rel="prev"'']\<rparr>)\<close>
  by (simp_all add: paginated_def rel_next_def)

section \<open>The repository id transformer\<close>

text \<open>\<open>decimal n\<close> consists of decimal digits and reads back as \<open>n\<close>.\<close>

lemma digit_value_digit_char: "d < 10 \<Longrightarrow> digit_value (digit_char d) = d"
proof -
  assume "d < 10"
  then consider "d = 0" | "d = 1" | "d = 2" | "d = 3" | "d = 4" | "d = 5" | "d = 6" | "d = 7"
    | "d = 8" | "d = 9" by (auto simp: eval_nat_numeral less_Suc_eq)
  then show ?thesis
    by cases (simp_all add: digit_value_def digit_char_def)
qed

lemma decimal_value_snoc: "decimal_value (s @ [c]) = 10 * decimal_value s + digit_value c"
  by (simp add: decimal_value_def)

lemma decimal_value_decimal: "decimal_value (decimal n) = n"
proof (induction n rule: decimal.induct)
  case (1 n)
  show ?case
  proof (cases "10 \<le> n")
    case True
    with 1 have "decimal_value (decimal (n div 10)) = n div 10" by simp
    with True show ?thesis
      by (subst decimal.simps) (simp add: decimal_value_snoc digit_value_digit_char)
  next
    case False
    then show ?thesis
      by (subst decimal.simps) (simp add: decimal_value_def digit_value_digit_char)
  qed
qed

lemma decimal_digits: "set (decimal n) \<subseteq> set ''0123456789''"
proof (induction n rule: decimal.induct)
  case (1 n)
  have d: "\<And>k. k < 10 \<Longrightarrow> digit_char k \<in> set ''0123456789''"
    unfolding digit_char_def by (rule nth_mem) simp
  show ?case
  proof (cases "10 \<le> n")
    case True
    with 1 have "set (decimal (n div 10)) \<subseteq> set ''0123456789''" by simp
    moreover have "digit_char (n mod 10) \<in> set ''0123456789''" by (rule d) simp
    ultimately show ?thesis using True by (subst decimal.simps) simp
  next
    case False
    then have "digit_char n \<in> set ''0123456789''" by (intro d) simp
    with False show ?thesis by (subst decimal.simps) simp
  qed
qed

lemma hex_digit_in: "n < 16 \<Longrightarrow> ''0123456789abcdef'' ! n \<in> set ''0123456789abcdef''"
  by (rule nth_mem) simp

lemma of_char_less_256: "(of_char c :: nat) < 256"
  by (cases c) simp

lemma set_hex_of_char: "set (hex_of_char c) \<subseteq> set ''0123456789abcdef''"
proof -
  have "(of_char c :: nat) div 16 < 16" using of_char_less_256 [of c] by arith
  moreover have "(of_char c :: nat) mod 16 < 16" by simp
  ultimately show ?thesis
    unfolding hex_of_char_def using hex_digit_in
    by (metis empty_set empty_subsetI insert_subset list.simps(15))
qed

lemma set_to_hex: "set (to_hex s) \<subseteq> set ''0123456789abcdef''"
  unfolding to_hex_def using set_hex_of_char by (induction s) auto

lemma calculatePrefix_Inr:
  assumes "calculatePrefix new_URL u = Inr p"
  shows "length p \<le> 512" and "set p \<subseteq> set ''0123456789abcdef''"
    and "\<exists>parsed. new_URL u = Some parsed \<and>
           p = take 512 (to_hex (strip_special (toLowerCase (host parsed @ pathname parsed))))"
proof -
  from assms obtain parsed where u: "new_URL u = Some parsed"
    and p: "p = take 512 (to_hex (strip_special (toLowerCase (host parsed @ pathname parsed))))"
    by (auto simp: calculatePrefix_def split: option.splits)
  show "length p \<le> 512" by (simp add: p)
  show "set p \<subseteq> set ''0123456789abcdef''"
    unfolding p using set_take_subset set_to_hex by (rule subset_trans)
  from u p show "\<exists>parsed. new_URL u = Some parsed \<and>
           p = take 512 (to_hex (strip_special (toLowerCase (host parsed @ pathname parsed))))"
    by blast
qed

text \<open>What is kept of the url is lower-case letters and digits only.\<close>

lemma strip_special_toLowerCase:
  "c \<in> set (strip_special (toLowerCase s)) \<Longrightarrow>
     (48 \<le> (of_char c :: nat) \<and> (of_char c :: nat) \<le> 57) \<or>
     (97 \<le> (of_char c :: nat) \<and> (of_char c :: nat) \<le> 122)"
  by (auto simp: strip_special_def toLowerCase_def is_alnum_def lower_char_def Let_def
           split: if_splits)

lemmas prefix_eval =
  calculatePrefix_def known_URLs_def Let_def toLowerCase_def lower_char_def strip_special_def
  is_alnum_def to_hex_def hex_of_char_def

lemma number_to_string_safe:
  "\<bar>n\<bar> \<le> MAX_SAFE_INTEGER \<Longrightarrow> number_to_string beyond n = signed_decimal n"
  by (simp add: number_to_string_def)

text \<open>Whatever the id, the outcome is its printed form, with or without the prefix.\<close>

lemma transformRepositoryId_plain:
  "\<not> flag \<or> base = None \<or> base = Some '''' \<Longrightarrow>
   transformRepositoryId new_URL beyond cloud flag n base = Inr (number_to_string beyond n)"
  by (auto simp: transformRepositoryId_def)

lemma transformRepositoryId_prefixed:
  "flag \<Longrightarrow> b \<noteq> '''' \<Longrightarrow> calculatePrefix new_URL b = Inr p \<Longrightarrow>
   calculatePrefix new_URL cloud = Inr q \<Longrightarrow>
   transformRepositoryId new_URL beyond cloud flag n (Some b) =
     (if p = q then Inr (number_to_string beyond n) else Inr (p @ ''-'' @ number_to_string beyond n))"
  by (simp add: transformRepositoryId_def)

text \<open>
  C10, as the claim states it, fails for the empty base url, and for an id beyond the safe
  integers. With the flag enabled and \<open>gitHubBaseUrl\<close> the empty string (a string, not
  \<open>undefined\<close>), no prefix of the base url exists to equal the prefix of the cloud url (the
  \<open>URL\<close> constructor refuses the empty string), so the claim's last case applies and asks
  for a prefix, a dash and the id; the function returns the bare id, because
  \<open>!gitHubBaseUrl\<close> holds for the empty string. And with the flag disabled, the id 10 to
  the 21 comes back as \<open>1e+21\<close>, which is not its decimal numeral. Both hold for every
  constructor and every printing that answer as the platform does on the arguments named.
\<close>

theorem transformRepositoryId_empty_base_url:
  "\<forall>new_URL beyond.
     transformRepositoryId (known_URLs new_URL) beyond ''https://github.com'' True 7 (Some '''') = Inr ''7''
     \<and> Some '''' \<noteq> (None :: string option)
     \<and> calculatePrefix (known_URLs new_URL) '''' = Inl TypeError
     \<and> calculatePrefix (known_URLs new_URL) ''https://github.com'' = Inr ''676974687562636f6d''
     \<and> transformRepositoryId new_URL (known_numbers beyond) ''https://github.com'' False
           1000000000000000000000 None = Inr ''1e+21''
     \<and> signed_decimal 1000000000000000000000 = ''1000000000000000000000''"
  by (simp add: transformRepositoryId_def number_to_string_def MAX_SAFE_INTEGER_def
        known_numbers_def signed_decimal_def decimal.simps digit_char_def prefix_eval)

text \<open>
  C10, amended. For a \<open>repositoryId\<close> that is a safe integer (of magnitude at most 2 to
  the 53 minus 1), \<open>transformRepositoryId\<close> returns the decimal numeral of \<open>repositoryId\<close>
  whenever the flag is disabled, or \<open>gitHubBaseUrl\<close> is undefined or the empty string, or
  the prefix of \<open>gitHubBaseUrl\<close> equals the prefix of the cloud base url. Otherwise, when
  both urls parse, it returns the prefix of \<open>gitHubBaseUrl\<close>, a dash and the decimal
  numeral; the prefix has at most 512 characters, all of them lower-case hexadecimal digits,
  and is the first 512 characters of the hexadecimal bytes of host plus pathname, in lower
  case and with every character that is not a letter or a digit removed. When the flag is
  enabled and a non-empty \<open>gitHubBaseUrl\<close>, or the cloud url, does not parse, the call
  rejects with the constructor's \<open>TypeError\<close>. The decimal numeral is a minus sign for a
  negative id and then decimal digits that read back as the magnitude.
\<close>

theorem transformRepositoryId_cases:
  "(\<bar>n\<bar> \<le> MAX_SAFE_INTEGER \<and> (\<not> flag \<or> base = None \<or> base = Some '''') \<longrightarrow>
      transformRepositoryId new_URL beyond cloud flag n base = Inr (signed_decimal n))
   \<and> (\<bar>n\<bar> \<le> MAX_SAFE_INTEGER \<and> flag \<and> base = Some b \<and> b \<noteq> '''' \<and>
        calculatePrefix new_URL b = Inr p \<and> calculatePrefix new_URL cloud = Inr q \<longrightarrow>
        transformRepositoryId new_URL beyond cloud flag n base =
          (if p = q then Inr (signed_decimal n) else Inr (p @ ''-'' @ signed_decimal n))
        \<and> length p \<le> 512 \<and> set p \<subseteq> set ''0123456789abcdef''
        \<and> (\<exists>parsed. new_URL b = Some parsed \<and>
              p = take 512 (to_hex (strip_special (toLowerCase (host parsed @ pathname parsed))))))
   \<and> (flag \<and> base = Some b \<and> b \<noteq> '''' \<and>
        (new_URL b = None \<or> new_URL cloud = None) \<longrightarrow>
        transformRepositoryId new_URL beyond cloud flag n base = Inl TypeError)
   \<and> signed_decimal n = (if 0 \<le> n then decimal (nat n) else CHR ''-'' # decimal (nat (- n)))
   \<and> decimal_value (decimal (nat \<bar>n\<bar>)) = nat \<bar>n\<bar>
   \<and> set (decimal (nat \<bar>n\<bar>)) \<subseteq> set ''0123456789''"
proof (intro conjI impI)
  assume a: "\<bar>n\<bar> \<le> MAX_SAFE_INTEGER \<and> (\<not> flag \<or> base = None \<or> base = Some '''')"
  then have "transformRepositoryId new_URL beyond cloud flag n base = Inr (number_to_string beyond n)"
    by (intro transformRepositoryId_plain) simp
  with a show "transformRepositoryId new_URL beyond cloud flag n base = Inr (signed_decimal n)"
    by (simp add: number_to_string_safe)
next
  assume a: "\<bar>n\<bar> \<le> MAX_SAFE_INTEGER \<and> flag \<and> base = Some b \<and> b \<noteq> '''' \<and>
        calculatePrefix new_URL b = Inr p \<and> calculatePrefix new_URL cloud = Inr q"
  then have "transformRepositoryId new_URL beyond cloud flag n (Some b) =
     (if p = q then Inr (number_to_string beyond n) else Inr (p @ ''-'' @ number_to_string beyond n))"
    by (intro transformRepositoryId_prefixed) simp_all
  with a show "transformRepositoryId new_URL beyond cloud flag n base =
          (if p = q then Inr (signed_decimal n) else Inr (p @ ''-'' @ signed_decimal n))"
    by (simp add: number_to_string_safe)
  from a have p: "calculatePrefix new_URL b = Inr p" by simp
  from calculatePrefix_Inr [OF p]
  show "length p \<le> 512" and "set p \<subseteq> set ''0123456789abcdef''"
    and "\<exists>parsed. new_URL b = Some parsed \<and>
              p = take 512 (to_hex (strip_special (toLowerCase (host parsed @ pathname parsed))))"
    by blast+
next
  assume "flag \<and> base = Some b \<and> b \<noteq> '''' \<and> (new_URL b = None \<or> new_URL cloud = None)"
  then show "transformRepositoryId new_URL beyond cloud flag n base = Inl TypeError"
    by (auto simp: transformRepositoryId_def calculatePrefix_def split: option.splits sum.splits)
next
  show "signed_decimal n = (if 0 \<le> n then decimal (nat n) else CHR ''-'' # decimal (nat (- n)))"
    by (simp add: signed_decimal_def)
next
  show "decimal_value (decimal (nat \<bar>n\<bar>)) = nat \<bar>n\<bar>"
    by (rule decimal_value_decimal)
next
  show "set (decimal (nat \<bar>n\<bar>)) \<subseteq> set ''0123456789''"
    by (rule decimal_digits)
qed

text \<open>
  Seven calls with a safe id, for every constructor that answers as the platform does on
  the urls named: the flag disabled; an enterprise server, which gets its prefix; an
  enterprise server with a port, upper-case letters and an underscore, whose prefix keeps
  the port and lowers and strips the rest; the cloud host under another scheme and letter
  case, which gets none; the cloud host with the default port, which gets none; a base url
  without a scheme, which the constructor refuses; and a negative id.
\<close>

theorem transformRepositoryId_cases_witness:
  "\<forall>new_URL beyond.
     transformRepositoryId (known_URLs new_URL) beyond ''https://github.com'' False 42
         (Some ''https://ghe.example.com/api'') = Inr ''42''
     \<and> transformRepositoryId (known_URLs new_URL) beyond ''https://github.com'' True 42
         (Some ''https://ghe.example.com/api'') = Inr ''6768656578616d706c65636f6d617069-42''
     \<and> transformRepositoryId (known_URLs new_URL) beyond ''https://github.com'' True 42
         (Some ''https://GHE.Example.com:8443/API_v3/'')
         = Inr ''6768656578616d706c65636f6d383434336170697633-42''
     \<and> transformRepositoryId (known_URLs new_URL) beyond ''https://github.com'' True 42
         (Some ''http://GitHub.com/'') = Inr ''42''
     \<and> transformRepositoryId (known_URLs new_URL) beyond ''https://github.com'' True 42
         (Some ''https://github.com:443'') = Inr ''42''
     \<and> transformRepositoryId (known_URLs new_URL) beyond ''https://github.com'' True 42
         (Some ''ghe.example.com'') = Inl TypeError
     \<and> transformRepositoryId (known_URLs new_URL) beyond ''https://github.com'' True (- 9007199254740991)
         None = Inr ''-9007199254740991''"
proof (intro allI)
  fix new_URL :: "string \<Rightarrow> URL option" and beyond :: "int \<Rightarrow> string"
  let ?U = "known_URLs new_URL"
  have cloud: "calculatePrefix ?U ''https://github.com'' = Inr ''676974687562636f6d''"
    by (simp add: prefix_eval)
  have ghe: "calculatePrefix ?U ''https://ghe.example.com/api'' = Inr ''6768656578616d706c65636f6d617069''"
    by (simp add: prefix_eval)
  have port: "calculatePrefix ?U ''https://GHE.Example.com:8443/API_v3/''
                = Inr ''6768656578616d706c65636f6d383434336170697633''"
    by (simp add: prefix_eval)
  have same: "calculatePrefix ?U ''http://GitHub.com/'' = Inr ''676974687562636f6d''"
    by (simp add: prefix_eval)
  have dflt: "calculatePrefix ?U ''https://github.com:443'' = Inr ''676974687562636f6d''"
    by (simp add: prefix_eval)
  have bad: "?U ''ghe.example.com'' = None"
    by (simp add: known_URLs_def)
  have d: "signed_decimal 42 = ''42''" "signed_decimal (- 9007199254740991) = ''-9007199254740991''"
    by (simp_all add: signed_decimal_def decimal.simps digit_char_def)
  have safe: "\<bar>42 :: int\<bar> \<le> MAX_SAFE_INTEGER" "\<bar>- 9007199254740991 :: int\<bar> \<le> MAX_SAFE_INTEGER"
    by (simp_all add: MAX_SAFE_INTEGER_def)
  note T = transformRepositoryId_cases [where new_URL = ?U and beyond = beyond
             and cloud = "''https://github.com''"]
  from T [where n = 42 and flag = False and base = "Some ''https://ghe.example.com/api''"] safe
  have 1: "transformRepositoryId ?U beyond ''https://github.com'' False 42
         (Some ''https://ghe.example.com/api'') = Inr ''42''"
    by (simp add: d)
  from T [where n = 42 and flag = True and base = "Some ''https://ghe.example.com/api''"
            and b = "''https://ghe.example.com/api''" and p = "''6768656578616d706c65636f6d617069''"
            and q = "''676974687562636f6d''"] cloud ghe safe
  have 2: "transformRepositoryId ?U beyond ''https://github.com'' True 42
         (Some ''https://ghe.example.com/api'') = Inr ''6768656578616d706c65636f6d617069-42''"
    by (simp add: d)
  from T [where n = 42 and flag = True and base = "Some ''https://GHE.Example.com:8443/API_v3/''"
            and b = "''https://GHE.Example.com:8443/API_v3/''"
            and p = "''6768656578616d706c65636f6d383434336170697633''"
            and q = "''676974687562636f6d''"] cloud port safe
  have 3: "transformRepositoryId ?U beyond ''https://github.com'' True 42
         (Some ''https://GHE.Example.com:8443/API_v3/'')
         = Inr ''6768656578616d706c65636f6d383434336170697633-42''"
    by (simp add: d)
  from T [where n = 42 and flag = True and base = "Some ''http://GitHub.com/''"
            and b = "''http://GitHub.com/''" and p = "''676974687562636f6d''"
            and q = "''676974687562636f6d''"] cloud same safe
  have 4: "transformRepositoryId ?U beyond ''https://github.com'' True 42
         (Some ''http://GitHub.com/'') = Inr ''42''"
    by (simp add: d)
  from T [where n = 42 and flag = True and base = "Some ''https://github.com:443''"
            and b = "''https://github.com:443''" and p = "''676974687562636f6d''"
            and q = "''676974687562636f6d''"] cloud dflt safe
  have 5: "transformRepositoryId ?U beyond ''https://github.com'' True 42
         (Some ''https://github.com:443'') = Inr ''42''"
    by (simp add: d)
  from T [where n = 42 and flag = True and base = "Some ''ghe.example.com''"
            and b = "''ghe.example.com''"] bad
  have 6: "transformRepositoryId ?U beyond ''https://github.com'' True 42
         (Some ''ghe.example.com'') = Inl TypeError"
    by simp
  from T [where n = "- 9007199254740991" and flag = True and base = None] safe
  have 7: "transformRepositoryId ?U beyond ''https://github.com'' True (- 9007199254740991)
         None = Inr ''-9007199254740991''"
    by (simp add: d)
  from 1 2 3 4 5 6 7
  show "transformRepositoryId ?U beyond ''https://github.com'' False 42
         (Some ''https://ghe.example.com/api'') = Inr ''42''
     \<and> transformRepositoryId ?U beyond ''https://github.com'' True 42
         (Some ''https://ghe.example.com/api'') = Inr ''6768656578616d706c65636f6d617069-42''
     \<and> transformRepositoryId ?U beyond ''https://github.com'' True 42
         (Some ''https://GHE.Example.com:8443/API_v3/'')
         = Inr ''6768656578616d706c65636f6d383434336170697633-42''
     \<and> transformRepositoryId ?U beyond ''https://github.com'' True 42
         (Some ''http://GitHub.com/'') = Inr ''42''
     \<and> transformRepositoryId ?U beyond ''https://github.com'' True 42
         (Some ''https://github.com:443'') = Inr ''42''
     \<and> transformRepositoryId ?U beyond ''https://github.com'' True 42
         (Some ''ghe.example.com'') = Inl TypeError
     \<and> transformRepositoryId ?U beyond ''https://github.com'' True (- 9007199254740991)
         None = Inr ''-9007199254740991''"
    by (intro conjI)
qed

section \<open>Reuse of the app token\<close>

lemma holder_reuse:
  "currentToken h = Some t \<Longrightarrow> now + margin h < expiresAt t \<Longrightarrow>
   holder_getAppToken sign now h = (Inr t, h)"
  by (simp add: holder_getAppToken_def isAboutToExpire_def)

lemma signAppToken_Inr:
  "signAppToken sign now h = (Inr t, h') \<Longrightarrow>
   currentToken h' = Some t \<and> margin h' = margin h \<and> horizon h' = horizon h \<and>
   expiresAt t = now + horizon h"
  by (auto simp: signAppToken_def split: option.splits)

lemma holder_getAppToken_Inr:
  "holder_getAppToken sign now h = (Inr t, h') \<Longrightarrow>
   currentToken h' = Some t \<and> margin h' = margin h \<and> horizon h' = horizon h"
  by (auto simp: holder_getAppToken_def dest: signAppToken_Inr split: option.splits if_splits)

lemmas holder_eval =
  holder_getAppToken_def signAppToken_def isAboutToExpire_def plain_sign_def
  signed_decimal_def decimal.simps digit_char_def demo_holder_def demo_holder_signed_def

text \<open>
  C2, as the claim states it, fails when the prior call is not the one that signed the
  token. With a horizon of ten minutes and a margin of one minute, the call at minute 5
  returns the token signed at minute 0; the call at minute 10 comes five minutes after
  that prior call, well within horizon minus margin, and yet signs a new token, because
  the cached token is measured against its own expiry. The test of the holder makes the
  same three calls and expects the same.
\<close>

theorem app_token_prior_call_counterexample:
  "holder_getAppToken plain_sign 0 demo_holder
     = (Inr \<lparr>token = ''key.42.0.600000'', expiresAt = 600000\<rparr>, demo_holder_signed)
   \<and> holder_getAppToken plain_sign 300000 demo_holder_signed
     = (Inr \<lparr>token = ''key.42.0.600000'', expiresAt = 600000\<rparr>, demo_holder_signed)
   \<and> (600000 :: int) - 300000 < horizon demo_holder_signed - margin demo_holder_signed
   \<and> fst (holder_getAppToken plain_sign 600000 demo_holder_signed)
     = Inr \<lparr>token = ''key.42.600000.1200000'', expiresAt = 1200000\<rparr>
   \<and> ''key.42.600000.1200000'' \<noteq> ''key.42.0.600000''"
  by (simp add: holder_eval)

text \<open>
  C2, amended. A call made while the token that a prior call returned is still more than
  the safety margin away from its expiry returns that very token, leaves the holder as it
  is and signs nothing (the outcome is the same for every signing operation). In
  particular this holds for every call made less than horizon minus margin after the call
  that signed the token.
\<close>

theorem app_token_reused:
  "(holder_getAppToken sign t0 h = (Inr tok, h1) \<and> t1 + margin h < expiresAt tok \<longrightarrow>
      holder_getAppToken sign' t1 h1 = (Inr tok, h1))
   \<and> (signAppToken sign t0 h = (Inr tok, h1) \<and> t1 - t0 < horizon h - margin h \<longrightarrow>
      holder_getAppToken sign' t1 h1 = (Inr tok, h1))"
proof (intro conjI impI)
  assume a: "holder_getAppToken sign t0 h = (Inr tok, h1) \<and> t1 + margin h < expiresAt tok"
  with holder_getAppToken_Inr [of sign t0 h tok h1]
  show "holder_getAppToken sign' t1 h1 = (Inr tok, h1)"
    by (simp add: holder_reuse)
next
  assume a: "signAppToken sign t0 h = (Inr tok, h1) \<and> t1 - t0 < horizon h - margin h"
  with signAppToken_Inr [of sign t0 h tok h1]
  show "holder_getAppToken sign' t1 h1 = (Inr tok, h1)"
    by (simp add: holder_reuse)
qed

theorem app_token_reused_witness:
  "holder_getAppToken plain_sign 300000 demo_holder_signed
     = (Inr \<lparr>token = ''key.42.0.600000'', expiresAt = 600000\<rparr>, demo_holder_signed)
   \<and> holder_getAppToken plain_sign 539999 demo_holder_signed
     = (Inr \<lparr>token = ''key.42.0.600000'', expiresAt = 600000\<rparr>, demo_holder_signed)"
proof -
  have first: "holder_getAppToken plain_sign 0 demo_holder
     = (Inr \<lparr>token = ''key.42.0.600000'', expiresAt = 600000\<rparr>, demo_holder_signed)"
    by (simp add: holder_eval)
  have signed: "signAppToken plain_sign 0 demo_holder
     = (Inr \<lparr>token = ''key.42.0.600000'', expiresAt = 600000\<rparr>, demo_holder_signed)"
    by (simp add: holder_eval)
  from app_token_reused [where sign = plain_sign and sign' = plain_sign and h = demo_holder
         and ?t0.0 = 0 and ?t1.0 = 300000, THEN conjunct1, THEN mp, OF conjI, OF first]
  have 1: "holder_getAppToken plain_sign 300000 demo_holder_signed
     = (Inr \<lparr>token = ''key.42.0.600000'', expiresAt = 600000\<rparr>, demo_holder_signed)"
    by (simp add: demo_holder_def)
  from app_token_reused [where sign = plain_sign and sign' = plain_sign and h = demo_holder
         and ?t0.0 = 0 and ?t1.0 = 539999, THEN conjunct2, THEN mp, OF conjI, OF signed]
  have 2: "holder_getAppToken plain_sign 539999 demo_holder_signed
     = (Inr \<lparr>token = ''key.42.0.600000'', expiresAt = 600000\<rparr>, demo_holder_signed)"
    by (simp add: demo_holder_def)
  from 1 2 show ?thesis by (rule conjI)
qed

section \<open>Coalesced fetches of the installation token cache\<close>

lemma map_of_without: "k \<noteq> k' \<Longrightarrow> map_of (without k' es) k = map_of es k"
  by (induction es) (auto simp: without_def)

lemma map_of_take: "map_of (take n es) k = None \<or> map_of (take n es) k = map_of es k"
proof (induction es arbitrary: n)
  case Nil
  then show ?case by simp
next
  case (Cons a es)
  then show ?case by (cases n) auto
qed

lemma map_of_touch: "k \<noteq> k' \<Longrightarrow> map_of (touch k' t es) k = map_of es k"
  by (simp add: touch_def map_of_without)

lemma map_of_store:
  "k \<noteq> k' \<Longrightarrow> map_of (store n k' t es) k = None \<or> map_of (store n k' t es) k = map_of es k"
  using map_of_take [of n "(k', t) # without k' es" k]
  by (simp add: store_def map_of_without)

lemma valid_entry_cong:
  "map_of (entries c') k = None \<or> map_of (entries c') k = map_of (entries c) k \<Longrightarrow>
   safetyMargin c' = safetyMargin c \<Longrightarrow>
   valid_entry c k now = None \<Longrightarrow> valid_entry c' k now = None"
  by (auto simp: valid_entry_def split: option.splits if_splits)

lemma step_safetyMargin [simp]: "safetyMargin (step c ev) = safetyMargin c"
  by (cases ev) (auto split: option.splits)

lemma step_capacity [simp]: "capacity (step c ev) = capacity c"
  by (cases ev) (auto split: option.splits)

lemma step_entries_other:
  assumes "gathers c k ev"
  shows "map_of (entries (step c ev)) k = None \<or> map_of (entries (step c ev)) k = map_of (entries c) k"
proof (cases ev)
  case (Call caller k' now)
  show ?thesis
  proof (cases "k' = k")
    case True
    with assms Call show ?thesis by (simp split: option.splits)
  next
    case False
    with Call show ?thesis by (simp add: map_of_touch split: option.splits)
  qed
next
  case (Resolved k' t)
  with assms have "k \<noteq> k'" by simp
  from map_of_store [OF this] Resolved show ?thesis by (auto split: option.splits)
next
  case (Rejected k' e)
  then show ?thesis by (simp split: option.splits)
qed

lemma step_stays_cold:
  "gathers c k ev \<Longrightarrow> valid_entry c k now = None \<Longrightarrow> valid_entry (step c ev) k now = None"
  using step_entries_other [of c k ev] valid_entry_cong [of "step c ev" k c now] by simp

lemma gathers_step: "gathers c k ev \<Longrightarrow> gathers c k ev' \<Longrightarrow> gathers (step c ev) k ev'"
  by (cases ev') (auto simp: step_stays_cold)

lemma run_stays_cold:
  "\<forall>ev \<in> set evs. gathers c k ev \<Longrightarrow> valid_entry c k now = None \<Longrightarrow>
   valid_entry (run c evs) k now = None"
proof (induction evs arbitrary: c)
  case Nil
  then show ?case by simp
next
  case (Cons ev evs)
  have "\<forall>ev' \<in> set evs. gathers (step c ev) k ev'"
    using Cons.prems(1) by (simp add: gathers_step)
  moreover have "valid_entry (step c ev) k now = None"
    using Cons.prems by (simp add: step_stays_cold)
  ultimately show ?case using Cons.IH by simp
qed

lemma step_while_pending:
  assumes "pending c k = Some ws" and "gathers c k ev"
  shows "pending (step c ev) k = Some (ws @ callers k [ev])"
    and "count_list (fetchCalls (step c ev)) k = count_list (fetchCalls c) k"
  using assms by (cases ev; auto split: option.splits)+

lemma step_while_idle:
  assumes "pending c k = None" and "gathers c k ev"
  shows "(callers k [ev] = [] \<and> pending (step c ev) k = None \<and>
            count_list (fetchCalls (step c ev)) k = count_list (fetchCalls c) k)
         \<or> (callers k [ev] \<noteq> [] \<and> pending (step c ev) k = Some (callers k [ev]) \<and>
            count_list (fetchCalls (step c ev)) k = count_list (fetchCalls c) k + 1)"
  using assms by (cases ev) (auto split: option.splits)

lemma callers_Cons: "callers k (ev # evs) = callers k [ev] @ callers k evs"
  by (cases ev) auto

lemma run_while_pending:
  "pending c k = Some ws \<Longrightarrow> \<forall>ev \<in> set evs. gathers c k ev \<Longrightarrow>
   pending (run c evs) k = Some (ws @ callers k evs) \<and>
   count_list (fetchCalls (run c evs)) k = count_list (fetchCalls c) k"
proof (induction evs arbitrary: c ws)
  case Nil
  then show ?case by simp
next
  case (Cons ev evs)
  from Cons.prems have g: "gathers c k ev" by simp
  have rest: "\<forall>ev' \<in> set evs. gathers (step c ev) k ev'"
    using Cons.prems(2) by (simp add: gathers_step)
  from Cons.IH [OF step_while_pending(1) [OF Cons.prems(1) g] rest]
    step_while_pending(2) [OF Cons.prems(1) g]
  show ?case by (simp add: callers_Cons [of k ev evs])
qed

lemma run_while_idle:
  "pending c k = None \<Longrightarrow> \<forall>ev \<in> set evs. gathers c k ev \<Longrightarrow>
   (callers k evs = [] \<and> pending (run c evs) k = None \<and>
      count_list (fetchCalls (run c evs)) k = count_list (fetchCalls c) k)
   \<or> (callers k evs \<noteq> [] \<and> pending (run c evs) k = Some (callers k evs) \<and>
      count_list (fetchCalls (run c evs)) k = count_list (fetchCalls c) k + 1)"
proof (induction evs arbitrary: c)
  case Nil
  then show ?case by simp
next
  case (Cons ev evs)
  from Cons.prems have g: "gathers c k ev" by simp
  have rest: "\<forall>ev' \<in> set evs. gathers (step c ev) k ev'"
    using Cons.prems(2) by (simp add: gathers_step)
  from step_while_idle [OF Cons.prems(1) g] show ?case
  proof
    assume idle: "callers k [ev] = [] \<and> pending (step c ev) k = None \<and>
            count_list (fetchCalls (step c ev)) k = count_list (fetchCalls c) k"
    with Cons.IH [OF _ rest] show ?thesis
      by (simp add: callers_Cons [of k ev evs])
  next
    assume started: "callers k [ev] \<noteq> [] \<and> pending (step c ev) k = Some (callers k [ev]) \<and>
            count_list (fetchCalls (step c ev)) k = count_list (fetchCalls c) k + 1"
    with run_while_pending [OF _ rest, of "callers k [ev]"] show ?thesis
      by (simp add: callers_Cons [of k ev evs])
  qed
qed

lemma run_capacity [simp]: "capacity (run c evs) = capacity c"
  by (induction evs arbitrary: c) simp_all

lemma valid_entry_later:
  "valid_entry c k t0 = None \<Longrightarrow> t0 \<le> now \<Longrightarrow> valid_entry c k now = None"
  by (auto simp: valid_entry_def isAboutToExpire_def split: option.splits if_splits)

lemmas cache_eval =
  cold_cache_def new_cache_def two_calls_def valid_entry_def isAboutToExpire_def touch_def
  store_def without_def token_abc_def token_def_def token_ghi_def

text \<open>
  C1. From a cache with no fetch in flight for key \<open>k\<close>, let any number of events
  happen, each either a call for \<open>k\<close> at an instant at which \<open>k\<close> has no valid entry, or
  an event of another key, with at least one call for \<open>k\<close> among them. Then \<open>fetchFn\<close>
  has been invoked for \<open>k\<close> exactly once, all callers for \<open>k\<close> wait on the one pending
  operation, and its completion settles every one of them with the same token, or every
  one of them with the same failure, without a further invocation.
\<close>

theorem coalesced_fetch:
  assumes "pending c k = None"
    and "\<forall>ev \<in> set evs. gathers c k ev"
    and "callers k evs \<noteq> []"
  shows "count_list (fetchCalls (run c evs)) k = count_list (fetchCalls c) k + 1
       \<and> pending (run c evs) k = Some (callers k evs)
       \<and> step (run c evs) (Resolved k t) =
           (run c evs)\<lparr>entries := store (capacity c) k t (entries (run c evs)),
                       pending := (pending (run c evs))(k := None),
                       outcomes := outcomes (run c evs) @ map (\<lambda>caller. (caller, Inr t)) (callers k evs)\<rparr>
       \<and> step (run c evs) (Rejected k e) =
           (run c evs)\<lparr>pending := (pending (run c evs))(k := None),
                       outcomes := outcomes (run c evs) @ map (\<lambda>caller. (caller, Inl e)) (callers k evs)\<rparr>"
proof -
  from run_while_idle [OF assms(1,2)] assms(3)
  have p: "pending (run c evs) k = Some (callers k evs)"
    and n: "count_list (fetchCalls (run c evs)) k = count_list (fetchCalls c) k + 1"
    by auto
  have cap: "capacity (run c evs) = capacity c"
    by (induction evs arbitrary: c) simp_all
  from p n cap show ?thesis by simp
qed

theorem coalesced_fetch_witness:
  "fetchCalls (run cold_cache two_calls) = [42, 99]
   \<and> count_list (fetchCalls (run cold_cache two_calls)) 42 = 1
   \<and> pending (run cold_cache two_calls) 42 = Some [1, 2]
   \<and> outcomes (step (run cold_cache two_calls) (Resolved 42 token_abc))
        = [(1, Inr token_abc), (2, Inr token_abc)]
   \<and> outcomes (step (run cold_cache two_calls) (Rejected 42 ''timeout''))
        = [(1, Inl ''timeout''), (2, Inl ''timeout'')]"
proof -
  have idle: "pending cold_cache 42 = None" by (simp add: cache_eval)
  have cold: "\<forall>ev \<in> set two_calls. gathers cold_cache 42 ev" by (simp add: cache_eval)
  have some: "callers 42 two_calls \<noteq> []" by (simp add: cache_eval)
  have cs: "callers 42 two_calls = [1, 2]" by (simp add: cache_eval)
  have before: "count_list (fetchCalls cold_cache) 42 = 0" "outcomes (run cold_cache two_calls) = []"
    "fetchCalls (run cold_cache two_calls) = [42, 99]"
    by (simp_all add: cache_eval)
  from coalesced_fetch [OF idle cold some, of token_abc "''timeout''"] cs before
  show ?thesis by simp
qed

text \<open>
  C3. In the same situation, when the pending fetch for \<open>k\<close> fails with \<open>e\<close>, every
  caller that waits on it (each caller of the run, \<open>caller0\<close> among them) is settled with
  \<open>e\<close>, the entries of the cache are what they were (nothing is stored for \<open>k\<close>, and
  \<open>k\<close> still has no valid entry), the pending marker is gone, and a call for \<open>k\<close> at
  any later instant invokes \<open>fetchFn\<close> again and becomes the first waiter of a new
  pending operation.
\<close>

theorem rejected_fetch:
  assumes "pending c k = None"
    and "\<forall>ev \<in> set evs. gathers c k ev"
    and "Call caller0 k t0 \<in> set evs"
    and "t0 \<le> now"
  shows "outcomes (step (run c evs) (Rejected k e)) =
           outcomes (run c evs) @ map (\<lambda>caller. (caller, Inl e)) (callers k evs)
       \<and> caller0 \<in> set (callers k evs)
       \<and> entries (step (run c evs) (Rejected k e)) = entries (run c evs)
       \<and> valid_entry (step (run c evs) (Rejected k e)) k now = None
       \<and> pending (step (run c evs) (Rejected k e)) k = None
       \<and> fetchCalls (step (run c evs) (Rejected k e)) = fetchCalls (run c evs)
       \<and> fetchCalls (step (step (run c evs) (Rejected k e)) (Call caller k now)) =
           fetchCalls (run c evs) @ [k]
       \<and> pending (step (step (run c evs) (Rejected k e)) (Call caller k now)) k = Some [caller]"
proof -
  have mem: "caller0 \<in> set (callers k evs)"
    using assms(3) by (induction k evs rule: callers.induct) auto
  then have "callers k evs \<noteq> []" by auto
  with run_while_idle [OF assms(1,2)]
  have p: "pending (run c evs) k = Some (callers k evs)" by auto
  from assms(2,3) have "gathers c k (Call caller0 k t0)" by blast
  then have "valid_entry c k t0 = None" by simp
  then have "valid_entry c k now = None" using assms(4) by (rule valid_entry_later)
  with assms(2) have cold: "valid_entry (run c evs) k now = None" by (rule run_stays_cold)
  have cold': "valid_entry (step (run c evs) (Rejected k e)) k now = None"
    using cold p by (auto simp: valid_entry_def split: option.splits)
  from p cold' mem show ?thesis by simp
qed

theorem rejected_fetch_witness:
  "outcomes (step (run cold_cache two_calls) (Rejected 42 ''timeout''))
        = [(1, Inl ''timeout''), (2, Inl ''timeout'')]
   \<and> entries (step (run cold_cache two_calls) (Rejected 42 ''timeout'')) = []
   \<and> fetchCalls (step (step (run cold_cache two_calls) (Rejected 42 ''timeout'')) (Call 3 42 10))
        = [42, 99, 42]"
proof -
  have idle: "pending cold_cache 42 = None" by (simp add: cache_eval)
  have cold: "\<forall>ev \<in> set two_calls. gathers cold_cache 42 ev" by (simp add: cache_eval)
  have called: "Call 1 42 0 \<in> set two_calls" by (simp add: cache_eval)
  have cs: "callers 42 two_calls = [1, 2]" by (simp add: cache_eval)
  have before: "entries (run cold_cache two_calls) = []" "outcomes (run cold_cache two_calls) = []"
    "fetchCalls (run cold_cache two_calls) = [42, 99]"
    by (simp_all add: cache_eval)
  have later: "(0 :: int) \<le> 10" by simp
  from rejected_fetch [OF idle cold called later, of "''timeout''" 3] cs before
  show ?thesis by simp
qed

section \<open>Capacity and eviction of the installation token cache\<close>

lemma length_without: "length (without k es) \<le> length es"
  by (simp add: without_def)

lemma length_without_less: "map_of es k = Some t \<Longrightarrow> length (without k es) < length es"
proof -
  assume "map_of es k = Some t"
  then have "(k, t) \<in> set es" by (rule map_of_SomeD)
  then show ?thesis unfolding without_def by (rule length_filter_less) simp
qed

lemma length_touch: "map_of es k = Some t \<Longrightarrow> length (touch k t es) \<le> length es"
  using length_without_less [of es k t] by (simp add: touch_def)

lemma length_store: "length (store n k t es) \<le> n"
  by (simp add: store_def)

lemma valid_entry_Some: "valid_entry c k now = Some t \<Longrightarrow> map_of (entries c) k = Some t"
  by (auto simp: valid_entry_def split: option.splits if_splits)

lemma step_bounded:
  "length (entries c) \<le> capacity c \<Longrightarrow> length (entries (step c ev)) \<le> capacity c"
proof (cases ev)
  case (Call caller k now)
  assume b: "length (entries c) \<le> capacity c"
  show ?thesis
  proof (cases "valid_entry c k now")
    case None
    with Call b show ?thesis by (simp split: option.splits)
  next
    case (Some t)
    from length_touch [OF valid_entry_Some [OF Some]] b Call Some show ?thesis by simp
  qed
next
  case (Resolved k t)
  assume "length (entries c) \<le> capacity c"
  with Resolved show ?thesis by (simp add: length_store split: option.splits)
next
  case (Rejected k e)
  assume "length (entries c) \<le> capacity c"
  with Rejected show ?thesis by (simp split: option.splits)
qed

lemma run_bounded:
  "length (entries c) \<le> capacity c \<Longrightarrow> length (entries (run c evs)) \<le> capacity c"
proof (induction evs arbitrary: c)
  case Nil
  then show ?case by simp
next
  case (Cons ev evs)
  from Cons.IH [of "step c ev"] step_bounded [OF Cons.prems] show ?case by simp
qed

lemma distinct_without: "distinct (map fst es) \<Longrightarrow> distinct (map fst (without k es))"
  by (simp add: without_def distinct_map_filter)

lemma not_in_without: "k \<notin> fst ` set (without k es)"
  by (auto simp: without_def)

lemma distinct_touch: "distinct (map fst es) \<Longrightarrow> distinct (map fst (touch k t es))"
  using not_in_without [of k es] by (simp add: touch_def distinct_without)

lemma distinct_store: "distinct (map fst es) \<Longrightarrow> distinct (map fst (store n k t es))"
proof -
  assume "distinct (map fst es)"
  then have "distinct (map fst ((k, t) # without k es))"
    using not_in_without [of k es] by (simp add: distinct_without)
  then show ?thesis unfolding store_def take_map [symmetric] by (rule distinct_take)
qed

lemma step_distinct:
  "distinct (map fst (entries c)) \<Longrightarrow> distinct (map fst (entries (step c ev)))"
  by (cases ev) (auto simp: distinct_touch distinct_store split: option.splits)

lemma run_distinct:
  "distinct (map fst (entries c)) \<Longrightarrow> distinct (map fst (entries (run c evs)))"
  by (induction evs arbitrary: c) (simp_all add: step_distinct)

lemma without_absent: "k \<notin> fst ` set es \<Longrightarrow> without k es = es"
  by (induction es) (auto simp: without_def)

lemma store_full:
  assumes "k \<notin> fst ` set es" and "length es = n" and "es \<noteq> []"
  shows "store n k t es = (k, t) # butlast es"
proof -
  from assms(2,3) obtain m where n: "n = Suc m" by (cases n) auto
  with assms(2) have "take m es = butlast es" by (simp add: butlast_conv_take)
  with n show ?thesis by (simp add: store_def without_absent [OF assms(1)])
qed

lemma keys_without: "map fst (without k es) = removeAll k (map fst es)"
  by (induction es) (auto simp: without_def)

lemma removeAll_take_hit:
  "distinct r \<Longrightarrow> k \<in> set (take n r) \<Longrightarrow> removeAll k (take n r) = take (n - 1) (removeAll k r)"
proof (induction r arbitrary: n)
  case Nil
  then show ?case by simp
next
  case (Cons a r)
  show ?case
  proof (cases n)
    case 0
    with Cons.prems show ?thesis by simp
  next
    case (Suc m)
    show ?thesis
    proof (cases "a = k")
      case True
      with Cons.prems(1) have "k \<notin> set r" by simp
      moreover from this have "k \<notin> set (take m r)" by (auto dest: in_set_takeD)
      ultimately have "removeAll k r = r" "removeAll k (take m r) = take m r"
        by simp_all
      with True Suc show ?thesis by simp
    next
      case False
      with Cons.prems Suc have k: "k \<in> set (take m r)" by simp
      then obtain m' where m: "m = Suc m'" by (cases m) auto
      from Cons.IH [OF _ k] Cons.prems(1) have "removeAll k (take m r) = take (m - 1) (removeAll k r)"
        by simp
      with False Suc m show ?thesis by simp
    qed
  qed
qed

lemma take_removeAll_take:
  "distinct r \<Longrightarrow> take m (removeAll k (take (Suc m) r)) = take m (removeAll k r)"
proof (induction r arbitrary: m)
  case Nil
  then show ?case by simp
next
  case (Cons a r)
  show ?case
  proof (cases "a = k")
    case True
    with Cons.prems have "k \<notin> set r" by simp
    moreover from this have "k \<notin> set (take m r)" by (auto dest: in_set_takeD)
    ultimately have "removeAll k r = r" "removeAll k (take m r) = take m r"
      by simp_all
    with True show ?thesis by simp
  next
    case False
    show ?thesis
    proof (cases m)
      case 0
      then show ?thesis by simp
    next
      case (Suc m')
      from Cons.IH [of m'] Cons.prems have "take m' (removeAll k (take (Suc m') r)) = take m' (removeAll k r)"
        by simp
      with False Suc show ?thesis by simp
    qed
  qed
qed

lemma step_recency:
  assumes "map fst (entries c) = take (capacity c) r" and "distinct r"
  shows "map fst (entries (step c ev)) =
           take (capacity c) (case accessed c ev of None \<Rightarrow> r | Some k \<Rightarrow> k # removeAll k r)"
proof (cases ev)
  case (Call caller k now)
  show ?thesis
  proof (cases "valid_entry c k now")
    case None
    with Call assms show ?thesis by (simp split: option.splits)
  next
    case (Some t)
    then have "map_of (entries c) k = Some t" by (rule valid_entry_Some)
    then have "k \<in> fst ` set (entries c)" by (metis domI dom_map_of_conv_image_fst)
    with assms(1) have k: "k \<in> set (take (capacity c) r)" by (metis set_map)
    then obtain m where m: "capacity c = Suc m" by (cases "capacity c") auto
    from removeAll_take_hit [OF assms(2) k] m
    have "removeAll k (take (capacity c) r) = take m (removeAll k r)" by simp
    with Call Some assms(1) m show ?thesis
      by (simp add: touch_def keys_without)
  qed
next
  case (Resolved k t)
  show ?thesis
  proof (cases "pending c k")
    case None
    with Resolved assms show ?thesis by simp
  next
    case (Some waiters)
    show ?thesis
    proof (cases "capacity c")
      case 0
      with Resolved Some show ?thesis by (simp add: store_def)
    next
      case (Suc m)
      have "map fst (take m (without k (entries c))) = take m (map fst (without k (entries c)))"
        by (simp add: take_map)
      also have "\<dots> = take m (removeAll k (take (Suc m) r))"
        using assms(1) Suc by (simp only: keys_without)
      finally have "map fst (take m (without k (entries c))) = take m (removeAll k (take (Suc m) r))" .
      with take_removeAll_take [OF assms(2), of m k] Resolved Some Suc
      show ?thesis by (simp add: store_def)
    qed
  qed
next
  case (Rejected k e)
  with assms show ?thesis by (simp split: option.splits)
qed

lemma run_recency:
  "map fst (entries c) = take (capacity c) r \<Longrightarrow> distinct r \<Longrightarrow>
   map fst (entries (run c evs)) = take (capacity c) (recency c evs r) \<and> distinct (recency c evs r)"
proof (induction evs arbitrary: c r)
  case Nil
  then show ?case by simp
next
  case (Cons ev evs)
  let ?r = "case accessed c ev of None \<Rightarrow> r | Some k \<Rightarrow> k # removeAll k r"
  have d: "distinct ?r" using Cons.prems(2) by (simp add: distinct_removeAll split: option.splits)
  from step_recency [OF Cons.prems, of ev]
  have "map fst (entries (step c ev)) = take (capacity (step c ev)) ?r" by simp
  from Cons.IH [OF this d] show ?case by simp
qed

lemma recency_new_cache:
  "map fst (entries (run (new_cache n m) evs)) = take n (recency (new_cache n m) evs [])"
  using run_recency [of "new_cache n m" "[]" evs] by (simp add: new_cache_def)

text \<open>
  C7. A cache that holds at most \<open>capacity\<close> entries does so after every run, and a new
  cache of capacity \<open>n\<close> never holds more than \<open>n\<close>; its keys are at every moment the
  \<open>n\<close> most recently accessed keys of the run, in that order, each once. When the fetch of a key
  that is not in the cache completes while the cache is full (and not of capacity 0), the
  new entry goes to the front and exactly the last entry, the least recently accessed one,
  is dropped: every other entry stays, and the number of entries is still the capacity. A
  call served from the cache moves its entry to the front.
\<close>

theorem cache_capacity_lru:
  "(length (entries c) \<le> capacity c \<longrightarrow> length (entries (run c evs)) \<le> capacity c)
   \<and> length (entries (run (new_cache n m) evs)) \<le> n
   \<and> map fst (entries (run (new_cache n m) evs)) = take n (recency (new_cache n m) evs [])
   \<and> distinct (map fst (entries (run (new_cache n m) evs)))
   \<and> (pending c k = Some ws \<and> k \<notin> fst ` set (entries c) \<and>
        length (entries c) = capacity c \<and> entries c \<noteq> [] \<and> distinct (map fst (entries c)) \<longrightarrow>
        entries (step c (Resolved k t)) = (k, t) # butlast (entries c)
        \<and> fst (last (entries c)) \<notin> fst ` set (entries (step c (Resolved k t)))
        \<and> length (entries (step c (Resolved k t))) = capacity c)
   \<and> (valid_entry c k now = Some t \<longrightarrow>
        entries (step c (Call caller k now)) = (k, t) # without k (entries c))"
proof (intro conjI impI)
  assume "length (entries c) \<le> capacity c"
  then show "length (entries (run c evs)) \<le> capacity c" by (rule run_bounded)
next
  show "length (entries (run (new_cache n m) evs)) \<le> n"
    using run_bounded [of "new_cache n m" evs] by (simp add: new_cache_def)
next
  show "map fst (entries (run (new_cache n m) evs)) = take n (recency (new_cache n m) evs [])"
    by (rule recency_new_cache)
next
  show "distinct (map fst (entries (run (new_cache n m) evs)))"
    by (rule run_distinct) (simp add: new_cache_def)
next
  assume a: "pending c k = Some ws \<and> k \<notin> fst ` set (entries c) \<and>
        length (entries c) = capacity c \<and> entries c \<noteq> [] \<and> distinct (map fst (entries c))"
  then have e: "entries (step c (Resolved k t)) = (k, t) # butlast (entries c)"
    by (simp add: store_full)
  then show "entries (step c (Resolved k t)) = (k, t) # butlast (entries c)" .
  from a have "entries c = butlast (entries c) @ [last (entries c)]" by simp
  with a have "distinct (map fst (butlast (entries c) @ [last (entries c)]))" by simp
  then have "fst (last (entries c)) \<notin> fst ` set (butlast (entries c))" by auto
  moreover from a have "fst (last (entries c)) \<noteq> k" by (metis image_eqI last_in_set)
  ultimately show "fst (last (entries c)) \<notin> fst ` set (entries (step c (Resolved k t)))"
    unfolding e by simp
  from a show "length (entries (step c (Resolved k t))) = capacity c"
    unfolding e by (cases "entries c") auto
next
  assume "valid_entry c k now = Some t"
  then show "entries (step c (Call caller k now)) = (k, t) # without k (entries c)"
    by (simp add: touch_def)
qed

theorem cache_capacity_lru_witness:
  "entries (run cold_cache full_cache_run) = [(1, token_abc), (2, token_def)]
   \<and> length (entries (run cold_cache full_cache_run)) \<le> 2
   \<and> entries (step (run cold_cache full_cache_run) (Resolved 3 token_ghi))
        = [(3, token_ghi), (1, token_abc)]
   \<and> entries (step (run cold_cache (full_cache_run @ [Resolved 3 token_ghi])) (Call 5 1 30))
        = [(1, token_abc), (3, token_ghi)]"
proof -
  let ?c = "run cold_cache full_cache_run"
  have c: "entries ?c = [(1, token_abc), (2, token_def)]" "pending ?c 3 = Some [4]" "capacity ?c = 2"
    by (simp_all add: cache_eval full_cache_run_def)
  note T = cache_capacity_lru [where c = ?c and k = 3 and ws = "[4]" and t = token_ghi]
  from T [THEN conjunct2, THEN conjunct2, THEN conjunct2, THEN conjunct2, THEN conjunct1] c
  have evict: "entries (step ?c (Resolved 3 token_ghi)) = [(3, token_ghi), (1, token_abc)]"
    by simp
  have b0: "length (entries cold_cache) \<le> capacity cold_cache" by (simp add: cache_eval)
  from cache_capacity_lru [where c = cold_cache and evs = full_cache_run, THEN conjunct1] b0
  have bound: "length (entries ?c) \<le> 2" by (simp add: cache_eval)
  let ?d = "run cold_cache (full_cache_run @ [Resolved 3 token_ghi])"
  have d: "entries ?d = [(3, token_ghi), (1, token_abc)]" "valid_entry ?d 1 30 = Some token_abc"
    by (simp_all add: cache_eval full_cache_run_def)
  from cache_capacity_lru [where c = ?d and k = 1 and now = 30 and t = token_abc and caller = 5,
         THEN conjunct2, THEN conjunct2, THEN conjunct2, THEN conjunct2, THEN conjunct2] d
  have hit: "entries (step ?d (Call 5 1 30)) = [(1, token_abc), (3, token_ghi)]"
    by (simp add: without_def)
  from c(1) bound evict hit show ?thesis by simp
qed

end
